theory Spec2Isabelle
  imports Main "HOL-Library.Word"
begin

section \<open>Machine types and failures\<close>

text \<open>
  The stubs of \<^verbatim>\<open>ffi_call_stubs.c\<close> are embedded for an LP64 platform: \<^verbatim>\<open>size_t\<close>
  and pointers are 64-bit words, \<^verbatim>\<open>int\<close> is a 32-bit word read in two's complement.
  Word arithmetic wraps around as the C arithmetic on \<^verbatim>\<open>size_t\<close> does.
\<close>

type_synonym size_t = "64 word"
type_synonym c_int = "32 word"
type_synonym addr = "64 word"

text \<open>
  Every way in which a stub stops without returning is a value of \<open>exn\<close>: a failed
  \<^verbatim>\<open>assert\<close>, a remainder by zero in \<^verbatim>\<open>aligned_offset\<close>, an access outside an
  array, and the OCaml exceptions the stubs raise.
\<close>

datatype exn =
    Assert_failure
  | Division_by_zero
  | Out_of_bounds
  | FFI_internal_error string
  | CallToExpiredClosure
  | Unix_error int string
  | Managed_exception string

text \<open>Reading and writing one element of a C array; outside the array nothing is defined
  in C, which the model reports as \<open>Out_of_bounds\<close>.\<close>

definition load :: "'a list \<Rightarrow> nat \<Rightarrow> exn + 'a" where
  "load xs i = (if i < length xs then Inr (xs ! i) else Inl Out_of_bounds)"

definition store :: "'a list \<Rightarrow> nat \<Rightarrow> 'a \<Rightarrow> exn + 'a list" where
  "store xs i v = (if i < length xs then Inr (xs[i := v]) else Inl Out_of_bounds)"

section \<open>Type tokens and alignment\<close>

text \<open>
  Modelled from the spec: the type \<^verbatim>\<open>ffi_type\<close> is declared by the call-dispatch
  library, not by this repository. The stubs read its members \<^verbatim>\<open>size\<close> and
  \<^verbatim>\<open>alignment\<close> only, both as \<^verbatim>\<open>size_t\<close> operands.
\<close>

record ffi_type =
  ffi_size :: size_t
  ffi_alignment :: size_t

text \<open>
  Modelled from the spec: \<^verbatim>\<open>ffi_type_pointer\<close> is the library's type token of a
  native pointer, eight bytes with eight-byte alignment on LP64; \<^verbatim>\<open>sizeof(void *)\<close>
  is the same eight bytes.
\<close>

definition ffi_type_pointer :: ffi_type where
  "ffi_type_pointer = \<lparr>ffi_size = 8, ffi_alignment = 8\<rparr>"

definition sizeof_ptr :: size_t where
  "sizeof_ptr = 8"

text \<open>
  \<^verbatim>\<open>aligned_offset\<close>: the next offset that satisfies the alignment. The C remainder
  by zero is undefined (a trap on the usual platforms); the model fails there.
\<close>

definition aligned_offset :: "size_t \<Rightarrow> size_t \<Rightarrow> exn + size_t" where
  "aligned_offset offset alignment =
     (if alignment = 0 then Inl Division_by_zero
      else let overhang = offset mod alignment
           in Inr (if overhang = 0 then offset else offset - overhang + alignment))"

text \<open>The rule of the specification, on natural numbers: the offset itself when it is a
  multiple of the alignment, else the next multiple.\<close>

definition alignUp :: "nat \<Rightarrow> nat \<Rightarrow> nat" where
  "alignUp offset alignment =
     (if offset mod alignment = 0 then offset
      else (offset div alignment + 1) * alignment)"

section \<open>The call specification\<close>

datatype callspec_state = BUILDING | CALLSPEC

record call_context =
  check_errno :: bool
  runtime_lock :: bool

type_synonym ffi_abi = int

text \<open>
  The library's call interface structure. The stubs read \<^verbatim>\<open>nargs\<close> only; what the
  library stores in it is decided by \<^verbatim>\<open>ffi_prep_cif\<close>, a parameter of the model.
\<close>

record ffi_cif =
  cif_abi :: ffi_abi
  nargs :: "32 word"
  arg_types :: "ffi_type option list"
  rtype :: ffi_type

datatype ffi_status = FFI_OK | FFI_BAD_TYPEDEF | FFI_BAD_ABI | FFI_OTHER_STATUS

type_synonym prep_cif =
  "ffi_abi \<Rightarrow> size_t \<Rightarrow> ffi_type \<Rightarrow> ffi_type option list \<Rightarrow> ffi_status \<times> ffi_cif"

text \<open>
  \<^verbatim>\<open>struct callspec\<close>. The array \<open>args\<close> has \<open>capacity\<close> slots; \<open>None\<close> is a
  slot that holds \<^verbatim>\<open>NULL\<close> or was never written. \<open>cif\<close> is \<open>None\<close> for the null
  pointer of the prototype.
\<close>

record callspec =
  bytes :: size_t
  nelements :: size_t
  capacity :: size_t
  max_align :: size_t
  state :: callspec_state
  args :: "ffi_type option list"
  roffset :: size_t
  call_ctx :: call_context
  cif :: "ffi_cif option"

definition callspec_prototype :: callspec where
  "callspec_prototype =
     \<lparr>bytes = 0, nelements = 0, capacity = 0, max_align = 0, state = BUILDING,
      args = [], roffset = - 1,
      call_ctx = \<lparr>check_errno = False, runtime_lock = False\<rparr>, cif = None\<rparr>"

definition ctypes_allocate_callspec :: "bool \<Rightarrow> bool \<Rightarrow> callspec" where
  "ctypes_allocate_callspec check_errno_v runtime_lock_v =
     callspec_prototype
       \<lparr>call_ctx := \<lparr>check_errno = check_errno_v, runtime_lock = runtime_lock_v\<rparr>\<rparr>"

definition ctypes_check_ffi_status :: "ffi_status \<Rightarrow> exn + unit" where
  "ctypes_check_ffi_status status =
     (case status of
        FFI_OK \<Rightarrow> Inr ()
      | FFI_BAD_TYPEDEF \<Rightarrow> Inl (FFI_internal_error ''FFI_BAD_TYPEDEF'')
      | FFI_BAD_ABI \<Rightarrow> Inl (FFI_internal_error ''FFI_BAD_ABI'')
      | FFI_OTHER_STATUS \<Rightarrow> Inl Assert_failure)"

subsection \<open>Appending an argument\<close>

definition increment_size :: size_t where
  "increment_size = 8"

text \<open>\<^verbatim>\<open>caml_stat_resize\<close> on the array of type pointers, to a size in bytes: the
  slots that fit are kept, the new ones are not yet written. Allocation is taken to
  succeed.\<close>

definition caml_stat_resize :: "ffi_type option list \<Rightarrow> size_t \<Rightarrow> ffi_type option list" where
  "caml_stat_resize xs new_size =
     (let n = unat new_size div unat sizeof_ptr
      in take n xs @ replicate (n - length xs) None)"

text \<open>
  \<^verbatim>\<open>ctypes_add_argument\<close>. The aligned offset is stored in an \<^verbatim>\<open>int\<close>: the
  \<^verbatim>\<open>size_t\<close> value is cut to 32 bits, and in \<^verbatim>\<open>offset + argtype->size\<close> the
  \<^verbatim>\<open>int\<close> is converted back to \<^verbatim>\<open>size_t\<close> with its sign. The result is the
  OCaml integer \<^verbatim>\<open>Val_int(offset)\<close> together with the updated specification.
\<close>

definition grow_args :: "callspec \<Rightarrow> callspec" where
  "grow_args callspec =
     (if nelements callspec + 2 \<ge> capacity callspec
      then let new_size = (capacity callspec + increment_size) * sizeof_ptr
           in callspec
                \<lparr>args := caml_stat_resize (args callspec) new_size,
                 capacity := capacity callspec + increment_size\<rparr>
      else callspec)"

definition ctypes_add_argument :: "callspec \<Rightarrow> ffi_type \<Rightarrow> (exn + int) \<times> callspec" where
  "ctypes_add_argument callspec argtype =
     (if state callspec \<noteq> BUILDING then (Inl Assert_failure, callspec)
      else case aligned_offset (bytes callspec) (ffi_alignment argtype) of
        Inl e \<Rightarrow> (Inl e, callspec)
      | Inr a \<Rightarrow>
          let offset = (ucast a :: c_int);
              s1 = callspec\<lparr>bytes := scast offset + ffi_size argtype\<rparr>;
              s2 = grow_args s1
          in case store (args s2) (unat (nelements s2)) (Some argtype) of
               Inl e \<Rightarrow> (Inl e, s2)
             | Inr args1 \<Rightarrow>
                 (case store args1 (unat (nelements s2 + 1)) None of
                    Inl e \<Rightarrow> (Inl e, s2\<lparr>args := args1\<rparr>)
                  | Inr args2 \<Rightarrow>
                      (Inr (sint offset),
                       s2\<lparr>args := args2,
                          nelements := nelements s2 + 1,
                          max_align :=
                            (if ffi_alignment argtype > max_align s2
                             then ffi_alignment argtype else max_align s2)\<rparr>)))"

subsection \<open>Preparing the specification\<close>

text \<open>
  \<^verbatim>\<open>ctypes_prep_callspec\<close>. The function has no assertion on the state. The return
  offset and the size are written before the library is asked for the call interface,
  so they stay written when the status is an error; the state is set last.
\<close>

definition ctypes_prep_callspec ::
  "prep_cif \<Rightarrow> callspec \<Rightarrow> ffi_abi \<Rightarrow> ffi_type \<Rightarrow> (exn + unit) \<times> callspec" where
  "ctypes_prep_callspec ffi_prep_cif callspec abi rffitype =
     (case aligned_offset (bytes callspec) (ffi_alignment rffitype) of
        Inl e \<Rightarrow> (Inl e, callspec)
      | Inr ro \<Rightarrow>
          let s1 = callspec\<lparr>roffset := ro\<rparr>;
              s2 = s1\<lparr>bytes := roffset s1 + ffi_size rffitype\<rparr>
          in case aligned_offset (bytes s2) (ffi_alignment ffi_type_pointer) of
               Inl e \<Rightarrow> (Inl e, s2)
             | Inr b \<Rightarrow>
                 let s3 = s2\<lparr>bytes := b\<rparr>;
                     s4 = s3\<lparr>bytes := bytes s3 + ffi_size ffi_type_pointer\<rparr>;
                     prepared = ffi_prep_cif abi (nelements s4) rffitype (args s4);
                     s5 = s4\<lparr>cif := Some (snd prepared)\<rparr>
                 in (case ctypes_check_ffi_status (fst prepared) of
                       Inl e \<Rightarrow> (Inl e, s5)
                     | Inr u \<Rightarrow> (Inr (), s5\<lparr>state := CALLSPEC\<rparr>)))"

section \<open>The invocation engine\<close>

text \<open>
  \<^verbatim>\<open>compute_arg_buffer_size\<close>: the size of the call buffer and, through the pointer
  argument of the C function, the offset of the pointer array in it.
\<close>

definition compute_arg_buffer_size :: "callspec \<Rightarrow> exn + size_t \<times> size_t" where
  "compute_arg_buffer_size callspec =
     (if state callspec \<noteq> CALLSPEC then Inl Assert_failure
      else case aligned_offset (bytes callspec) (ffi_alignment ffi_type_pointer) of
        Inl e \<Rightarrow> Inl e
      | Inr arg_array_offset \<Rightarrow>
          Inr (arg_array_offset + nelements callspec * sizeof_ptr, arg_array_offset))"

text \<open>
  \<^verbatim>\<open>populate_arg_array\<close>: the loop over \<open>i < nelements\<close>, as a recursion on the
  number of iterations left. The result lists the addresses written to
  \<open>arg_array[0]\<close>, \<open>arg_array[1]\<close>, and so on. Reading a type through a null slot
  of \<open>args\<close> is reported as \<open>Out_of_bounds\<close>.
\<close>

fun populate_loop ::
  "ffi_type option list \<Rightarrow> addr \<Rightarrow> nat \<Rightarrow> nat \<Rightarrow> size_t \<Rightarrow> exn + addr list" where
  "populate_loop tys callbuffer i 0 offset = Inr []"
| "populate_loop tys callbuffer i (Suc k) offset =
     (case load tys i of
        Inl e \<Rightarrow> Inl e
      | Inr None \<Rightarrow> Inl Out_of_bounds
      | Inr (Some t) \<Rightarrow>
          (case aligned_offset offset (ffi_alignment t) of
             Inl e \<Rightarrow> Inl e
           | Inr off \<Rightarrow>
               (case populate_loop tys callbuffer (Suc i) k (off + ffi_size t) of
                  Inl e \<Rightarrow> Inl e
                | Inr rest \<Rightarrow> Inr ((callbuffer + off) # rest))))"

definition populate_arg_array :: "callspec \<Rightarrow> addr \<Rightarrow> exn + addr list" where
  "populate_arg_array callspec callbuffer =
     populate_loop (args callspec) callbuffer 0 (unat (nelements callspec)) 0"

text \<open>
  What the argument writer leaves in a field of the value array: the unit value the
  field was allocated with, or a pair of a managed value and an offset. Only a string
  block has a byte address (\<^verbatim>\<open>String_val\<close>).
\<close>

datatype arg_ptr = String_block addr | Other_value

datatype arg_tuple = Val_unit | Tuple arg_ptr int

text \<open>
  \<^verbatim>\<open>Int_val\<close> reads an OCaml integer as a C \<^verbatim>\<open>int\<close>: its low 32 bits, signed.
  Added to a pointer, the \<^verbatim>\<open>int\<close> is extended with its sign.
\<close>

definition Int_val :: "int \<Rightarrow> c_int" where
  "Int_val v = word_of_int v"

text \<open>
  The loop of \<^verbatim>\<open>ctypes_call\<close> over the fields of the value array. \<open>val_refs\<close> is
  the address of the second stack array, \<open>refs\<close> its contents (\<open>None\<close> where it
  was not written), \<open>arg_array\<close> the contents of the pointer array.
\<close>

fun patch_loop ::
  "arg_tuple list \<Rightarrow> addr \<Rightarrow> nat \<Rightarrow> addr list \<Rightarrow> addr option list \<Rightarrow>
     exn + addr list \<times> addr option list" where
  "patch_loop [] val_refs arg_idx arg_array refs = Inr (arg_array, refs)"
| "patch_loop (Val_unit # rest) val_refs arg_idx arg_array refs =
     patch_loop rest val_refs (Suc arg_idx) arg_array refs"
| "patch_loop (Tuple arg_p arg_offset # rest) val_refs arg_idx arg_array refs =
     (case arg_p of
        Other_value \<Rightarrow> Inl Assert_failure
      | String_block str \<Rightarrow>
          (case store refs arg_idx (Some (str + scast (Int_val arg_offset))) of
             Inl e \<Rightarrow> Inl e
           | Inr refs1 \<Rightarrow>
               (case store arg_array arg_idx (val_refs + of_nat arg_idx * sizeof_ptr) of
                  Inl e \<Rightarrow> Inl e
                | Inr arg_array1 \<Rightarrow>
                    patch_loop rest val_refs (Suc arg_idx) arg_array1 refs1)))"

subsection \<open>The environment of a call\<close>

text \<open>
  What a foreign call is dispatched with: the call interface, the function address, the
  return slot, the pointer array and the contents of \<open>val_refs\<close>.
\<close>

record dispatch =
  d_cif :: "ffi_cif option"
  d_fn :: addr
  d_rvalue :: addr
  d_avalue :: "addr list"
  d_refs :: "addr option list"

datatype mlarg = Unit_arg | Ptr_arg addr

text \<open>
  The effects of the stubs on their environment are the platform error code and the
  order of the calls into the runtime and the library, kept as a trace.
\<close>

datatype event =
    Release_runtime_system
  | Acquire_runtime_system
  | Errno_reset
  | Ffi_call dispatch
  | Errno_saved int
  | Apply_Fn mlarg
  | Apply_Done addr

record world =
  errno :: int
  trace :: "event list"

definition emit :: "event \<Rightarrow> world \<Rightarrow> world" where
  "emit ev w = w\<lparr>trace := trace w @ [ev]\<rparr>"

definition caml_release_runtime_system :: "world \<Rightarrow> world" where
  "caml_release_runtime_system w = emit Release_runtime_system w"

definition caml_acquire_runtime_system :: "world \<Rightarrow> world" where
  "caml_acquire_runtime_system w = emit Acquire_runtime_system w"

text \<open>
  The foreign function is a parameter. From the dispatch and the environment at the
  call it gives the environment at its end, and it either returns or ends in an OCaml
  exception: native code may enter a trampoline, and an exception raised by the bridge
  unwinds the stack past the native frames, \<^verbatim>\<open>ffi_call\<close> and the stub that called it.
\<close>

type_synonym foreign = "dispatch \<Rightarrow> world \<Rightarrow> (exn + unit) \<times> world"

definition ffi_call :: "foreign \<Rightarrow> dispatch \<Rightarrow> world \<Rightarrow> (exn + unit) \<times> world" where
  "ffi_call native d w = native d (emit (Ffi_call d) w)"

text \<open>A foreign function that returns and whose only effect is on the error code, which
  it maps from its value before the call to its value after.\<close>

definition returning :: "(dispatch \<Rightarrow> int \<Rightarrow> int) \<Rightarrow> foreign" where
  "returning f d w = (Inr (), w\<lparr>errno := f d (errno w)\<rparr>)"

text \<open>\<^verbatim>\<open>strcpy\<close> from the bytes of an OCaml string: the copy stops at the first zero
  byte.\<close>

definition strcpy :: "string \<Rightarrow> string" where
  "strcpy s = takeWhile (\<lambda>c. c \<noteq> CHR 0x00) s"

subsection \<open>The call\<close>

text \<open>
  \<^verbatim>\<open>ctypes_call\<close>, in its two phases. \<open>callbuffer\<close> and \<open>val_refs\<close> are the
  addresses of the two stack allocations. The argument writer is given the buffer
  address and answers with the contents of the value array, one field per argument
  index; the return reader is given the return slot. Both are OCaml functions and may
  raise.

  The first phase, up to the loop over the value array, touches neither the runtime
  lock nor the error code: it ends with everything \<^verbatim>\<open>ffi_call\<close> is given. The return
  offset is read into an \<^verbatim>\<open>int\<close>.
\<close>

definition call_setup ::
  "addr \<Rightarrow> addr \<Rightarrow> addr \<Rightarrow> callspec \<Rightarrow> (addr \<Rightarrow> exn + (nat \<Rightarrow> arg_tuple)) \<Rightarrow>
     exn + dispatch" where
  "call_setup callbuffer val_refs function callspec argwriter =
     (if state callspec \<noteq> CALLSPEC then Inl Assert_failure
      else case compute_arg_buffer_size callspec of
        Inl e \<Rightarrow> Inl e
      | Inr sizes \<Rightarrow>
          let return_slot = callbuffer + scast (ucast (roffset callspec) :: c_int)
          in (case populate_arg_array callspec callbuffer of
                Inl e \<Rightarrow> Inl e
              | Inr arg_array \<Rightarrow>
                  (case argwriter callbuffer of
                     Inl e \<Rightarrow> Inl e
                   | Inr written \<Rightarrow>
                       (case patch_loop (map written [0 ..< unat (nelements callspec)])
                               val_refs 0 arg_array
                               (replicate (unat (nelements callspec)) None) of
                          Inl e \<Rightarrow> Inl e
                        | Inr patched \<Rightarrow>
                            Inr \<lparr>d_cif = cif callspec, d_fn = function,
                                 d_rvalue = return_slot, d_avalue = fst patched,
                                 d_refs = snd patched\<rparr>))))"

text \<open>The second phase: the release of the runtime lock, the dispatch between the reset
  and the capture of the error code, the reacquisition, and the result. When an
  exception crosses the dispatch, nothing after the dispatch is executed.\<close>

definition ctypes_call ::
  "foreign \<Rightarrow> addr \<Rightarrow> addr \<Rightarrow>
   string \<Rightarrow> addr \<Rightarrow> callspec \<Rightarrow> (addr \<Rightarrow> exn + (nat \<Rightarrow> arg_tuple)) \<Rightarrow>
   (addr \<Rightarrow> exn + 'a) \<Rightarrow> world \<Rightarrow> (exn + 'a) \<times> world" where
  "ctypes_call native callbuffer val_refs fnname function callspec argwriter rvreader w =
     (case call_setup callbuffer val_refs function callspec argwriter of
        Inl e \<Rightarrow> (Inl e, w)
      | Inr d \<Rightarrow>
          let ctx = call_ctx callspec;
              w1 = (if runtime_lock ctx then caml_release_runtime_system w else w);
              w2 = (if check_errno ctx then emit Errno_reset (w1\<lparr>errno := 0\<rparr>) else w1)
          in (case ffi_call native d w2 of
                (Inl e, w3) \<Rightarrow> (Inl e, w3)
              | (Inr u, w3) \<Rightarrow>
                  let saved_errno = (if check_errno ctx then errno w3 else 0);
                      w4 = (if check_errno ctx
                            then emit (Errno_saved saved_errno) w3 else w3);
                      w5 = (if runtime_lock ctx then caml_acquire_runtime_system w4 else w4)
                  in if check_errno ctx \<and> saved_errno \<noteq> 0
                     then (Inl (Unix_error saved_errno (strcpy fnname)), w5)
                     else (case rvreader (d_rvalue d) of
                             Inl e \<Rightarrow> (Inl e, w5)
                           | Inr v \<Rightarrow> (Inr v, w5))))"

section \<open>The callback bridge\<close>

text \<open>
  The managed function behind a trampoline is a chain of \<open>Fn\<close> links, one per
  application, closed by \<open>Done\<close>. The resolver registered with
  \<^verbatim>\<open>ctypes_set_closure_callback\<close> is a parameter; \<open>None\<close> is an exception result
  of the resolver. The links are taken not to raise (the stub has no support for it).
\<close>

datatype boxedfn = Done | Fn "mlarg \<Rightarrow> boxedfn"

record closure =
  fnkey :: int
  closure_ctx :: call_context

definition retrieve_closure :: "(int \<Rightarrow> boxedfn option) \<Rightarrow> int \<Rightarrow> exn + boxedfn" where
  "retrieve_closure retrieve_closure_v key =
     (case retrieve_closure_v key of
        None \<Rightarrow> Inl CallToExpiredClosure
      | Some result \<Rightarrow> Inr result)"

text \<open>The loop of \<^verbatim>\<open>callback_handler\<close> over \<open>i < arity\<close>, as a recursion on the
  number of iterations left; \<open>cargs\<close> is the array of native argument addresses.\<close>

fun apply_loop ::
  "addr list \<Rightarrow> nat \<Rightarrow> nat \<Rightarrow> boxedfn \<Rightarrow> world \<Rightarrow> (exn + boxedfn) \<times> world" where
  "apply_loop cargs i 0 boxed w = (Inr boxed, w)"
| "apply_loop cargs i (Suc k) boxed w =
     (case load cargs i of
        Inl e \<Rightarrow> (Inl e, w)
      | Inr cvalue \<Rightarrow>
          (case boxed of
             Done \<Rightarrow> (Inl Assert_failure, w)
           | Fn f \<Rightarrow>
               apply_loop cargs (Suc i) k (f (Ptr_arg cvalue))
                 (emit (Apply_Fn (Ptr_arg cvalue)) w)))"

definition callback_handler ::
  "(int \<Rightarrow> boxedfn option) \<Rightarrow> ffi_cif \<Rightarrow> addr \<Rightarrow> addr list \<Rightarrow> closure \<Rightarrow> world \<Rightarrow>
     (exn + unit) \<times> world" where
  "callback_handler retrieve_closure_v cif_v ret cargs closure_v w =
     (let w1 = (if runtime_lock (closure_ctx closure_v)
                then caml_acquire_runtime_system w else w)
      in case retrieve_closure retrieve_closure_v (fnkey closure_v) of
           Inl e \<Rightarrow> (Inl e, w1)
         | Inr boxed \<Rightarrow>
             let arity = sint (nargs cif_v);
                 applied =
                   (if arity = 0
                    then (case boxed of
                            Done \<Rightarrow> (Inl Assert_failure, w1)
                          | Fn f \<Rightarrow> (Inr (f Unit_arg), emit (Apply_Fn Unit_arg) w1))
                    else apply_loop cargs 0 (nat arity) boxed w1)
             in (case fst applied of
                   Inl e \<Rightarrow> (Inl e, snd applied)
                 | Inr Done \<Rightarrow>
                     let w3 = emit (Apply_Done ret) (snd applied)
                     in (Inr (),
                         if runtime_lock (closure_ctx closure_v)
                         then caml_release_runtime_system w3 else w3)
                 | Inr (Fn f) \<Rightarrow> (Inl Assert_failure, snd applied)))"

section \<open>Successive calls, consistency and sample values\<close>

text \<open>
  The successive calls of \<^verbatim>\<open>ctypes_add_argument\<close> an OCaml caller makes for a list
  of types, with the offsets they return; the first failure ends the run.
\<close>

fun add_arguments :: "callspec \<Rightarrow> ffi_type list \<Rightarrow> (exn + int list) \<times> callspec" where
  "add_arguments s [] = (Inr [], s)"
| "add_arguments s (t # ts) =
     (case ctypes_add_argument s t of
        (Inl e, s1) \<Rightarrow> (Inl e, s1)
      | (Inr off, s1) \<Rightarrow>
          (case add_arguments s1 ts of
             (Inl e, s2) \<Rightarrow> (Inl e, s2)
           | (Inr offs, s2) \<Rightarrow> (Inr (off # offs), s2)))"

text \<open>
  The bookkeeping of the type array as \<^verbatim>\<open>ctypes_allocate_callspec\<close> creates it and
  \<^verbatim>\<open>ctypes_add_argument\<close> keeps it: the array has \<open>capacity\<close> slots, the elements
  fit, and at most nine slots are free.
\<close>

definition args_wf :: "callspec \<Rightarrow> bool" where
  "args_wf s \<longleftrightarrow>
     length (args s) = unat (capacity s) \<and>
     unat (nelements s) \<le> unat (capacity s) \<and>
     unat (capacity s) \<le> unat (nelements s) + 9"


text \<open>The applications of managed closures among the events of a trace.\<close>

fun is_application :: "event \<Rightarrow> bool" where
  "is_application (Apply_Fn a) = True"
| "is_application (Apply_Done r) = True"
| "is_application ev = False"

definition applications :: "event list \<Rightarrow> event list" where
  "applications evs = filter is_application evs"

text \<open>A chain that takes the given arguments one by one and then is the result step.\<close>

fun accepts :: "boxedfn \<Rightarrow> mlarg list \<Rightarrow> bool" where
  "accepts Done [] = True"
| "accepts (Fn f) (a # as) = accepts (f a) as"
| "accepts Done (a # as) = False"
| "accepts (Fn f) [] = False"

text \<open>Sample values: a library that accepts every interface, some type tokens, and
  specifications built from them.\<close>

definition accepting_prep_cif :: prep_cif where
  "accepting_prep_cif abi n rt ats =
     (FFI_OK, \<lparr>cif_abi = abi, nargs = ucast n, arg_types = ats, rtype = rt\<rparr>)"

definition byte_type :: ffi_type where
  "byte_type = \<lparr>ffi_size = 1, ffi_alignment = 1\<rparr>"

definition int_type :: ffi_type where
  "int_type = \<lparr>ffi_size = 4, ffi_alignment = 4\<rparr>"

definition double_type :: ffi_type where
  "double_type = \<lparr>ffi_size = 8, ffi_alignment = 8\<rparr>"

definition huge_type :: ffi_type where
  "huge_type = \<lparr>ffi_size = 0x80000000, ffi_alignment = 1\<rparr>"

definition spec_byte :: callspec where
  "spec_byte = snd (ctypes_add_argument (ctypes_allocate_callspec False False) byte_type)"

definition spec_2g :: callspec where
  "spec_2g = snd (ctypes_add_argument (ctypes_allocate_callspec False False) huge_type)"

definition spec_4_8_1 :: callspec where
  "spec_4_8_1 = snd (add_arguments (ctypes_allocate_callspec False False)
                       [int_type, double_type, byte_type])"

definition spec_int_prepared :: callspec where
  "spec_int_prepared =
     snd (ctypes_prep_callspec accepting_prep_cif
            (snd (ctypes_add_argument (ctypes_allocate_callspec False False) int_type))
            2 int_type)"

text \<open>Sample values for calls and for the bridge: a prepared specification with both
  flags set, the two stack addresses 1000 and 2000, a foreign function that sets the
  error code to 5, writers, a reader, and registries of managed functions.\<close>

definition spec_checked :: callspec where
  "spec_checked =
     snd (ctypes_prep_callspec accepting_prep_cif
            (snd (add_arguments (ctypes_allocate_callspec True True)
                    [int_type, double_type, byte_type]))
            0 int_type)"

definition world0 :: world where
  "world0 = \<lparr>errno = 7, trace = []\<rparr>"

definition native_errno5 :: "dispatch \<Rightarrow> int \<Rightarrow> int" where
  "native_errno5 d e = 5"

definition writer_unit :: "addr \<Rightarrow> exn + (nat \<Rightarrow> arg_tuple)" where
  "writer_unit buffer = Inr (\<lambda>i. Val_unit)"

definition writer_string :: "addr \<Rightarrow> exn + (nat \<Rightarrow> arg_tuple)" where
  "writer_string buffer =
     Inr (\<lambda>i. if i = 1 then Tuple (String_block 5000) 3 else Val_unit)"

definition reader_addr :: "addr \<Rightarrow> exn + addr" where
  "reader_addr slot = Inr slot"

definition name_with_zero :: string where
  "name_with_zero = [CHR ''a'', CHR 0x00, CHR ''b'']"

definition dispatch_checked :: dispatch where
  "dispatch_checked =
     \<lparr>d_cif = cif spec_checked, d_fn = 77, d_rvalue = 1020,
      d_avalue = [1000, 1008, 1016], d_refs = [None, None, None]\<rparr>"

definition dispatch_string :: dispatch where
  "dispatch_string =
     \<lparr>d_cif = cif spec_checked, d_fn = 77, d_rvalue = 1020,
      d_avalue = [1000, 2008, 1016], d_refs = [None, Some 5003, None]\<rparr>"

definition cif_two :: ffi_cif where
  "cif_two = \<lparr>cif_abi = 0, nargs = 2, arg_types = [Some int_type, Some int_type],
              rtype = int_type\<rparr>"

definition cif_zero :: ffi_cif where
  "cif_zero = \<lparr>cif_abi = 0, nargs = 0, arg_types = [], rtype = int_type\<rparr>"

definition closure_locked :: "int \<Rightarrow> closure" where
  "closure_locked key =
     \<lparr>fnkey = key, closure_ctx = \<lparr>check_errno = False, runtime_lock = True\<rparr>\<rparr>"

definition registry_two :: "int \<Rightarrow> boxedfn option" where
  "registry_two key = (if key = 3 then Some (Fn (\<lambda>a. Fn (\<lambda>b. Done))) else None)"

definition registry_thunk :: "int \<Rightarrow> boxedfn option" where
  "registry_thunk key = (if key = 3 then Some (Fn (\<lambda>u. Done)) else None)"

definition registry_done :: "int \<Rightarrow> boxedfn option" where
  "registry_done key = (if key = 3 then Some Done else None)"

text \<open>A writer that hands back a string block with an offset beyond the range of
  \<^verbatim>\<open>int\<close>, and the dispatch it leads to.\<close>

definition writer_far :: "addr \<Rightarrow> exn + (nat \<Rightarrow> arg_tuple)" where
  "writer_far buffer =
     Inr (\<lambda>i. if i = 1 then Tuple (String_block 0x7FFFF78B65C8) 4294967299 else Val_unit)"

definition dispatch_far :: dispatch where
  "dispatch_far =
     \<lparr>d_cif = cif spec_checked, d_fn = 77, d_rvalue = 1020,
      d_avalue = [1000, 2008, 1016], d_refs = [None, Some 0x7FFFF78B65CB, None]\<rparr>"

text \<open>A foreign function that enters the trampoline of a closure whose key is not
  registered.\<close>

definition native_enters_bridge :: foreign where
  "native_enters_bridge d w =
     callback_handler registry_two cif_two 900 [100, 200] (closure_locked 4) w"

text \<open>Specifications whose running size exceeds the range of \<^verbatim>\<open>int\<close>: one argument
  of \<open>2 ^ 31 + 1\<close> bytes; and the prepared specification of one argument of \<open>2 ^ 31\<close>
  bytes, with the dispatch of a call on it.\<close>

definition huge_type1 :: ffi_type where
  "huge_type1 = \<lparr>ffi_size = 0x80000001, ffi_alignment = 1\<rparr>"

definition spec_2g1 :: callspec where
  "spec_2g1 = snd (ctypes_add_argument (ctypes_allocate_callspec False False) huge_type1)"

definition spec_2g_prepared :: callspec where
  "spec_2g_prepared = snd (ctypes_prep_callspec accepting_prep_cif spec_2g 2 int_type)"

definition dispatch_2g :: dispatch where
  "dispatch_2g =
     \<lparr>d_cif = cif spec_2g_prepared, d_fn = 77, d_rvalue = 0xFFFFFFFF800003E8,
      d_avalue = [1000], d_refs = [None]\<rparr>"

section \<open>Auxiliary facts\<close>

subsection \<open>Alignment\<close>

lemma alignUp_alt: "0 < a \<Longrightarrow> x mod a \<noteq> 0 \<Longrightarrow> alignUp x a = x - x mod a + a"
proof -
  assume "0 < a" "x mod a \<noteq> 0"
  have "x div a * a = x - x mod a"
    by (simp add: minus_mod_eq_div_mult)
  then show ?thesis using \<open>x mod a \<noteq> 0\<close> by (simp add: alignUp_def)
qed

lemma aligned_offset_alignUp:
  assumes a: "alignment \<noteq> 0" and fits: "alignUp (unat offset) (unat alignment) < 2 ^ 64"
  shows "\<exists>r. aligned_offset offset alignment = Inr r \<and> unat r = alignUp (unat offset) (unat alignment)"
proof (cases "offset mod alignment = 0")
  case True
  then have "unat offset mod unat alignment = 0"
    by (metis unat_mod unat_0)
  then show ?thesis using a True by (simp add: aligned_offset_def alignUp_def)
next
  case False
  have pos: "0 < unat alignment" using a by (simp add: unat_gt_0)
  have m: "unat (offset mod alignment) = unat offset mod unat alignment" by (rule unat_mod)
  have nz: "unat offset mod unat alignment \<noteq> 0"
    using False m by (metis unat_eq_zero)
  have le: "offset mod alignment \<le> offset"
    by (simp add: word_le_nat_alt m)
  have s: "unat (offset - offset mod alignment) = unat offset - unat offset mod unat alignment"
    using le by (simp add: unat_sub m)
  have up: "alignUp (unat offset) (unat alignment) = unat offset - unat offset mod unat alignment + unat alignment"
    using pos nz by (rule alignUp_alt)
  have "unat (offset - offset mod alignment) + unat alignment < 2 ^ LENGTH(64)"
    using fits up s by simp
  then have "unat (offset - offset mod alignment + alignment) = unat (offset - offset mod alignment) + unat alignment"
    by (rule unat_add_lem [THEN iffD1])
  then show ?thesis using a False up s by (simp add: aligned_offset_def Let_def)
qed

subsection \<open>One appended argument\<close>

lemma unat_plus_small:
  fixes x :: size_t
  assumes "unat x < 2 ^ 63" and "k < 2 ^ 63"
  shows "unat (x + of_nat k) = unat x + k"
proof -
  have "unat (of_nat k :: size_t) = k" using assms(2) by (simp add: unat_of_nat)
  moreover have "unat x + k < 2 ^ LENGTH(64)" using assms by simp
  ultimately show ?thesis by (metis unat_add_lem)
qed

lemma unat_plus_1: "unat (x :: size_t) < 2 ^ 63 \<Longrightarrow> unat (x + 1) = unat x + 1"
  using unat_plus_small [of x 1] by simp
lemma unat_plus_2: "unat (x :: size_t) < 2 ^ 63 \<Longrightarrow> unat (x + 2) = unat x + 2"
  using unat_plus_small [of x 2] by simp
lemma unat_plus_8: "unat (x :: size_t) < 2 ^ 63 \<Longrightarrow> unat (x + 8) = unat x + 8"
  using unat_plus_small [of x 8] by simp

lemma grow_args_wf:
  assumes wf: "args_wf s" and n: "unat (nelements s) < 2 ^ 60"
  shows "length (args (grow_args s)) = unat (capacity (grow_args s))"
    and "unat (nelements s) + 2 < unat (capacity (grow_args s))"
    and "unat (capacity (grow_args s)) \<le> unat (nelements s) + 10"
    and "take (unat (nelements s)) (args (grow_args s)) = take (unat (nelements s)) (args s)"
    and "capacity (grow_args s) = (if nelements s + 2 \<ge> capacity s then capacity s + 8 else capacity s)"
    and "nelements (grow_args s) = nelements s"
proof -
  have c: "unat (capacity s) < 2 ^ 60 + 10"
    using wf n by (auto simp: args_wf_def)
  then have c63: "unat (capacity s) < 2 ^ 63" by simp
  have n2: "unat (nelements s + 2) = unat (nelements s) + 2" using n by (simp add: unat_plus_2)
  have c8: "unat (capacity s + 8) = unat (capacity s) + 8" using c63 by (simp add: unat_plus_8)
  have "unat (capacity s + 8) * unat (8 :: size_t) < 2 ^ LENGTH(64)" using c c8 by simp
  then have "unat ((capacity s + 8) * 8) = unat (capacity s + 8) * unat (8 :: size_t)"
    by (rule unat_mult_lem [THEN iffD1])
  then have slots: "unat ((capacity s + 8) * 8) div 8 = unat (capacity s) + 8"
    using c8 by simp
  show "length (args (grow_args s)) = unat (capacity (grow_args s))"
    using wf c8 slots
    by (auto simp: grow_args_def args_wf_def caml_stat_resize_def increment_size_def
        sizeof_ptr_def Let_def)
  show "unat (nelements s) + 2 < unat (capacity (grow_args s))"
    using wf c8 n2 by (auto simp: grow_args_def args_wf_def increment_size_def word_le_nat_alt Let_def)
  show "unat (capacity (grow_args s)) \<le> unat (nelements s) + 10"
    using wf c8 n2 by (auto simp: grow_args_def args_wf_def increment_size_def word_le_nat_alt Let_def)
  show "take (unat (nelements s)) (args (grow_args s)) = take (unat (nelements s)) (args s)"
    using wf c8 slots
    by (auto simp: grow_args_def args_wf_def caml_stat_resize_def increment_size_def
        sizeof_ptr_def Let_def)
  show "capacity (grow_args s) = (if nelements s + 2 \<ge> capacity s then capacity s + 8 else capacity s)"
    by (simp add: grow_args_def increment_size_def Let_def)
  show "nelements (grow_args s) = nelements s"
    by (simp add: grow_args_def Let_def)
qed

lemma args_wf_bytes [simp]: "args_wf (s\<lparr>bytes := b\<rparr>) = args_wf s"
  by (simp add: args_wf_def)

lemma take_Suc_update2:
  assumes "n + 1 < length xs"
  shows "take (n + 1) (xs[n := v, n + 1 := u]) = take n xs @ [v]"
proof -
  have "take (n + 1) (xs[n := v, n + 1 := u]) = take (n + 1) (xs[n := v])" by simp
  also have "\<dots> = take n (xs[n := v]) @ [xs[n := v] ! n]"
    using assms by (simp add: take_Suc_conv_app_nth)
  also have "\<dots> = take n xs @ [v]" using assms by simp
  finally show ?thesis .
qed

lemma add_argument_step:
  assumes st: "state s = BUILDING" and wf: "args_wf s"
    and nb: "unat (nelements s) < 2 ^ 60"
    and al: "aligned_offset (bytes s) (ffi_alignment t) = Inr a"
  shows "fst (ctypes_add_argument s t) = Inr (sint (ucast a :: c_int))"
    and "bytes (snd (ctypes_add_argument s t)) = scast (ucast a :: c_int) + ffi_size t"
    and "nelements (snd (ctypes_add_argument s t)) = nelements s + 1"
    and "capacity (snd (ctypes_add_argument s t)) =
           (if nelements s + 2 \<ge> capacity s then capacity s + 8 else capacity s)"
    and "take (unat (nelements s) + 1) (args (snd (ctypes_add_argument s t))) =
           take (unat (nelements s)) (args s) @ [Some t]"
    and "length (args (snd (ctypes_add_argument s t))) = unat (capacity (snd (ctypes_add_argument s t)))"
    and "unat (nelements s) + 2 < unat (capacity (snd (ctypes_add_argument s t)))"
    and "unat (capacity (snd (ctypes_add_argument s t))) \<le> unat (nelements s) + 10"
    and "max_align (snd (ctypes_add_argument s t)) = max (max_align s) (ffi_alignment t)"
    and "state (snd (ctypes_add_argument s t)) = BUILDING"
    and "call_ctx (snd (ctypes_add_argument s t)) = call_ctx s"
proof -
  define s1 where "s1 = s\<lparr>bytes := scast (ucast a :: c_int) + ffi_size t\<rparr>"
  define g where "g = grow_args s1"
  define n where "n = unat (nelements s)"
  have wf1: "args_wf s1" using wf by (simp add: s1_def)
  have ne1: "nelements s1 = nelements s" and ca1: "capacity s1 = capacity s"
    and ar1: "args s1 = args s" by (simp_all add: s1_def)
  have nb1: "unat (nelements s1) < 2 ^ 60" using nb by (simp add: ne1)
  note G = grow_args_wf [OF wf1 nb1, folded g_def, unfolded ne1 ca1 ar1, folded n_def]
  have n1: "unat (nelements g + 1) = n + 1"
    using nb G(6) unat_plus_1 [of "nelements s"] by (simp add: n_def)
  have len: "n + 1 < length (args g)" using G(1,2) by simp
  have st1: "store (args g) (unat (nelements g)) (Some t) = Inr ((args g)[n := Some t])"
    using len G(6) by (simp add: store_def n_def)
  have st2: "store ((args g)[n := Some t]) (unat (nelements g + 1)) None
               = Inr ((args g)[n := Some t, n + 1 := None])"
    using len n1 by (simp add: store_def)
  have res: "ctypes_add_argument s t =
     (Inr (sint (ucast a :: c_int)),
      g\<lparr>args := (args g)[n := Some t, n + 1 := None],
        nelements := nelements g + 1,
        max_align := (if ffi_alignment t > max_align g then ffi_alignment t else max_align g)\<rparr>)"
    using st al st1 st2
    by (simp add: ctypes_add_argument_def Let_def s1_def [symmetric] g_def [symmetric])
  have gm: "max_align g = max_align s" "state g = state s" "call_ctx g = call_ctx s"
    "bytes g = bytes s1"
    by (simp_all add: g_def grow_args_def s1_def)
  show "fst (ctypes_add_argument s t) = Inr (sint (ucast a :: c_int))" by (simp add: res)
  show "bytes (snd (ctypes_add_argument s t)) = scast (ucast a :: c_int) + ffi_size t"
    by (simp add: res gm s1_def)
  show "nelements (snd (ctypes_add_argument s t)) = nelements s + 1" by (simp add: res G(6))
  show "capacity (snd (ctypes_add_argument s t)) =
           (if nelements s + 2 \<ge> capacity s then capacity s + 8 else capacity s)"
    using G(5) by (simp add: res)
  show "take (unat (nelements s) + 1) (args (snd (ctypes_add_argument s t))) =
           take (unat (nelements s)) (args s) @ [Some t]"
    using take_Suc_update2 [OF len] G(4) by (simp add: res n_def [symmetric])
  show "length (args (snd (ctypes_add_argument s t))) = unat (capacity (snd (ctypes_add_argument s t)))"
    using G(1) by (simp add: res)
  show "unat (nelements s) + 2 < unat (capacity (snd (ctypes_add_argument s t)))"
    using G(2) by (simp add: res n_def)
  show "unat (capacity (snd (ctypes_add_argument s t))) \<le> unat (nelements s) + 10"
    using G(3) by (simp add: res n_def)
  show "max_align (snd (ctypes_add_argument s t)) = max (max_align s) (ffi_alignment t)"
    by (auto simp add: res gm max_def)
  show "state (snd (ctypes_add_argument s t)) = BUILDING" using st by (simp add: res gm)
  show "call_ctx (snd (ctypes_add_argument s t)) = call_ctx s" by (simp add: res gm)
qed

subsection \<open>The walk of the engine\<close>

lemma add_arguments_Cons:
  "add_arguments s (t # ts) =
     (case fst (ctypes_add_argument s t) of
        Inl e \<Rightarrow> (Inl e, snd (ctypes_add_argument s t))
      | Inr off \<Rightarrow>
          (case fst (add_arguments (snd (ctypes_add_argument s t)) ts) of
             Inl e \<Rightarrow> (Inl e, snd (add_arguments (snd (ctypes_add_argument s t)) ts))
           | Inr offs \<Rightarrow>
               (Inr (off # offs), snd (add_arguments (snd (ctypes_add_argument s t)) ts))))"
  by (simp split: prod.splits sum.splits)

lemma fits_unat: "(a :: size_t) \<le> 0x7FFFFFFF \<Longrightarrow> unat a < 2 ^ 31"
  by (simp add: word_le_nat_alt)

lemma sint_ucast_fits:
  fixes a :: size_t
  assumes "a \<le> 0x7FFFFFFF"
  shows "sint (ucast a :: c_int) = uint a"
proof -
  have b: "uint a < 2 ^ 31" using assms by (simp add: word_le_def)
  have "0 \<le> uint a" by simp
  from b this show ?thesis
    by (simp add: sint_uint signed_take_bit_eq_if_positive take_bit_int_eq_self bit_take_bit_iff
       unsigned_ucast_eq take_bit_eq_mod bit_iff_odd)
qed

lemma scast_ucast_fits:
  fixes a :: size_t
  assumes "a \<le> 0x7FFFFFFF"
  shows "(scast (ucast a :: c_int) :: size_t) = a"
proof -
  have "(scast (ucast a :: c_int) :: size_t) = word_of_int (sint (ucast a :: c_int))"
    by (simp add: signed_of_int signed_def[abs_def]) 
  thus ?thesis using sint_ucast_fits[OF assms] by simp
qed

lemma load_Cons_Suc: "load (x # xs) (Suc i) = load xs i"
  by (simp add: load_def)

lemma populate_loop_shift:
  "populate_loop (x # tys) cb (Suc i) k off = populate_loop tys cb i k off"
  by (induction k arbitrary: i off)
     (simp_all add: load_Cons_Suc split: sum.splits option.splits)

lemma load_take:
  assumes "take m xs = take m ys" and "i < m"
  shows "load xs i = load ys i"
proof -
  have l: "min m (length xs) = min m (length ys)"
    using assms(1) by (metis length_take min.commute)
  have "i < length xs \<longleftrightarrow> i < length ys" using l assms(2) by (auto simp: min_def split: if_splits)
  moreover have "i < length xs \<Longrightarrow> xs ! i = ys ! i"
    using assms by (metis nth_take)
  ultimately show ?thesis by (auto simp: load_def)
qed

lemma populate_loop_take:
  assumes "take (i + k) tys = take (i + k) tys'"
  shows "populate_loop tys cb i k off = populate_loop tys' cb i k off"
  using assms
proof (induction k arbitrary: i off)
  case 0
  then show ?case by simp
next
  case (Suc k)
  have l: "load tys i = load tys' i" using Suc.prems by (rule load_take) simp
  have "take (Suc i + k) tys = take (Suc i + k) tys'" using Suc.prems by simp
  then have r: "\<And>off. populate_loop tys cb (Suc i) k off = populate_loop tys' cb (Suc i) k off"
    by (rule Suc.IH)
  show ?case by (simp add: l r split: sum.splits option.splits)
qed

lemma populate_loop_base:
  "populate_loop tys cb i k off = Inr pos \<Longrightarrow>
     populate_loop tys cb' i k off = Inr (map (\<lambda>p. cb' + (p - cb)) pos)"
proof (induction k arbitrary: i off pos)
  case 0
  then show ?case by simp
next
  case (Suc k)
  then show ?case
    by (auto split: sum.splits option.splits)
qed

lemma args_wf_step:
  assumes st: "state s = BUILDING" and wf: "args_wf s"
    and nb: "unat (nelements s) < 2 ^ 60"
    and al: "aligned_offset (bytes s) (ffi_alignment t) = Inr a"
  shows "args_wf (snd (ctypes_add_argument s t))"
    and "unat (nelements (snd (ctypes_add_argument s t))) = unat (nelements s) + 1"
proof -
  note S = add_argument_step [OF st wf nb al]
  show n: "unat (nelements (snd (ctypes_add_argument s t))) = unat (nelements s) + 1"
    using S(3) nb unat_plus_1 [of "nelements s"] by simp
  show "args_wf (snd (ctypes_add_argument s t))"
    unfolding args_wf_def using S(6,7,8) n by simp
qed

lemma add_arguments_walk:
  assumes "state s = BUILDING" and "args_wf s"
    and "unat (nelements s) + length ts < 2 ^ 60"
    and "populate_loop (map Some ts) 0 0 (length ts) (bytes s) = Inr pos"
    and "\<forall>p\<in>set pos. p \<le> 0x7FFFFFFF"
  shows "fst (add_arguments s ts) = Inr (map uint pos) \<and>
         state (snd (add_arguments s ts)) = BUILDING \<and>
         args_wf (snd (add_arguments s ts)) \<and>
         unat (nelements (snd (add_arguments s ts))) = unat (nelements s) + length ts \<and>
         take (unat (nelements s) + length ts) (args (snd (add_arguments s ts))) =
           take (unat (nelements s)) (args s) @ map Some ts"
  using assms
proof (induction ts arbitrary: s pos)
  case Nil
  then show ?case by simp
next
  case (Cons t ts)
  from Cons.prems(4) obtain a rest where
    al: "aligned_offset (bytes s) (ffi_alignment t) = Inr a"
    and rest: "populate_loop (map Some ts) 0 0 (length ts) (a + ffi_size t) = Inr rest"
    and pos: "pos = a # rest"
    by (auto simp: load_def populate_loop_shift split: sum.splits)
  have fit: "a \<le> 0x7FFFFFFF" and fits: "\<forall>p\<in>set rest. p \<le> 0x7FFFFFFF"
    using Cons.prems(5) pos by simp_all
  have nb: "unat (nelements s) < 2 ^ 60" using Cons.prems(3) by simp
  note S = add_argument_step [OF Cons.prems(1,2) nb al]
  note W = args_wf_step [OF Cons.prems(1,2) nb al]
  let ?s1 = "snd (ctypes_add_argument s t)"
  have b1: "bytes ?s1 = a + ffi_size t" using S(2) scast_ucast_fits [OF fit] by simp
  have nb1: "unat (nelements ?s1) + length ts < 2 ^ 60" using W(2) Cons.prems(3) by simp
  have rest1: "populate_loop (map Some ts) 0 0 (length ts) (bytes ?s1) = Inr rest"
    using rest b1 by simp
  note IH = Cons.IH [OF S(10) W(1) nb1 rest1 fits]
  have r: "fst (ctypes_add_argument s t) = Inr (uint a)"
    using S(1) sint_ucast_fits [OF fit] by simp
  have tk: "take (unat (nelements ?s1)) (args ?s1) = take (unat (nelements s)) (args s) @ [Some t]"
    using S(5) W(2) by simp
  show ?case using IH r tk W(2)
    by (simp add: pos add_arguments_Cons del: add_arguments.simps(2))
qed

lemma args_wf_allocate: "args_wf (ctypes_allocate_callspec ce rl)"
  by (simp add: args_wf_def ctypes_allocate_callspec_def callspec_prototype_def)

lemma prep_callspec_keeps_args:
  "args (snd (ctypes_prep_callspec prep s abi rt)) = args s \<and>
   nelements (snd (ctypes_prep_callspec prep s abi rt)) = nelements s"
  by (simp add: ctypes_prep_callspec_def Let_def split: sum.splits)

lemma populate_loop_prefix:
  assumes "populate_loop (map Some ts) cb 0 (length ts) off = Inr pos"
    and "populate_loop (map Some (ts @ us)) cb 0 (length (ts @ us)) off = Inr pos'"
  shows "take (length ts) pos' = pos"
  using assms
proof (induction ts arbitrary: off pos pos')
  case Nil
  then show ?case by simp
next
  case (Cons t ts)
  then show ?case
    by (auto simp: load_def populate_loop_shift split: sum.splits)
qed

subsection \<open>Truncation to \<open>int\<close>\<close>

lemma sint_ucast_mod:
  fixes a :: size_t
  shows "sint (ucast a :: c_int) mod 2 ^ 32 = uint a mod 2 ^ 32"
proof -
  have "take_bit 32 (sint (ucast a :: c_int)) = take_bit 32 (uint (ucast a :: c_int))"
    by (simp add: sint_uint take_bit_signed_take_bit)
  also have "\<dots> = take_bit 32 (uint a)"
    by (simp add: unsigned_ucast_eq)
  finally show ?thesis by (simp add: take_bit_eq_mod)
qed

lemma sint_ucast_overflow:
  fixes a :: size_t
  assumes "0x7FFFFFFF < a"
  shows "sint (ucast a :: c_int) < uint a"
proof -
  have "sint (ucast a :: c_int) < 2 ^ (LENGTH(32) - 1)" by (rule sint_lt)
  moreover have "2 ^ 31 \<le> uint a" using assms by (simp add: word_less_def)
  ultimately show ?thesis by simp
qed

lemma call_setup_rvalue:
  "call_setup callbuffer val_refs function s argwriter = Inr d \<Longrightarrow>
     d_rvalue d = callbuffer + scast (ucast (roffset s) :: c_int)"
  by (auto simp: call_setup_def Let_def split: if_splits sum.splits)

lemma scast_word_of_int_sint: "(scast (x :: c_int) :: size_t) = word_of_int (sint x)"
  by (simp add: signed_of_int signed_def [abs_def])

lemma aligned_offset_pointer:
  "\<exists>b. aligned_offset x (ffi_alignment ffi_type_pointer) = Inr b"
  by (simp add: aligned_offset_def ffi_type_pointer_def Let_def)

lemma aligned_offset_Inr: "aligned_offset x a = Inr r \<Longrightarrow> a \<noteq> 0"
  by (auto simp: aligned_offset_def split: if_splits)

lemma aligned_offset_unat:
  assumes "aligned_offset x a = Inr r" and "alignUp (unat x) (unat a) < 2 ^ 64"
  shows "unat r = alignUp (unat x) (unat a)"
proof -
  from aligned_offset_alignUp [OF aligned_offset_Inr [OF assms(1)] assms(2)]
  obtain r' where "aligned_offset x a = Inr r'" "unat r' = alignUp (unat x) (unat a)"
    by blast
  then show ?thesis using assms(1) by simp
qed

subsection \<open>The loop over the value array\<close>

lemma patch_loop_result:
  assumes "patch_loop vs vr k aa refs = Inr (aa', refs')"
  shows "length aa' = length aa \<and> length refs' = length refs \<and>
         (\<forall>j<k. aa' ! j = aa ! j \<and> refs' ! j = refs ! j) \<and>
         (\<forall>j<length vs.
            (vs ! j = Val_unit \<longrightarrow> aa' ! (k + j) = aa ! (k + j)) \<and>
            (\<forall>str off. vs ! j = Tuple (String_block str) off \<longrightarrow>
               aa' ! (k + j) = vr + of_nat (k + j) * sizeof_ptr \<and>
               refs' ! (k + j) = Some (str + scast (Int_val off))))"
  using assms
proof (induction vs vr k aa refs rule: patch_loop.induct)
  case (1 vr k aa refs)
  then show ?case by simp
next
  case (2 rest vr k aa refs)
  from "2.prems" have r: "patch_loop rest vr (Suc k) aa refs = Inr (aa', refs')" by simp
  note IH = "2.IH" [OF r]
  show ?case
  proof (intro conjI allI impI)
    show "length aa' = length aa" "length refs' = length refs" using IH by simp_all
  next
    fix j assume "j < k" then show "aa' ! j = aa ! j" "refs' ! j = refs ! j" using IH by simp_all
  next
    fix j assume j: "j < length (Val_unit # rest)" and "(Val_unit # rest) ! j = Val_unit"
    show "aa' ! (k + j) = aa ! (k + j)"
    proof (cases j)
      case 0 then show ?thesis using IH by simp
    next
      case (Suc m)
      then have "m < length rest" "rest ! m = Val_unit"
        using j \<open>(Val_unit # rest) ! j = Val_unit\<close> by simp_all
      then show ?thesis using IH Suc by simp
    qed
  next
    fix j str off
    assume j: "j < length (Val_unit # rest)"
      and t: "(Val_unit # rest) ! j = Tuple (String_block str) off"
    then obtain m where m: "j = Suc m" "m < length rest" "rest ! m = Tuple (String_block str) off"
      by (cases j) simp_all
    then show "aa' ! (k + j) = vr + of_nat (k + j) * sizeof_ptr"
      "refs' ! (k + j) = Some (str + scast (Int_val off))" using IH by simp_all
  qed
next
  case (3 arg_p arg_offset rest vr k aa refs)
  from "3.prems" obtain s0 where p: "arg_p = String_block s0"
    by (cases arg_p) simp_all
  from "3.prems" p have kr: "k < length refs" and ka: "k < length aa"
    by (auto simp: store_def split: if_splits)
  let ?refs1 = "refs[k := Some (s0 + scast (Int_val arg_offset))]"
  let ?aa1 = "aa[k := vr + of_nat k * sizeof_ptr]"
  have s1: "store refs k (Some (s0 + scast (Int_val arg_offset))) = Inr ?refs1"
    using kr by (simp add: store_def)
  have s2: "store aa k (vr + of_nat k * sizeof_ptr) = Inr ?aa1"
    using ka by (simp add: store_def)
  from "3.prems" have r: "patch_loop rest vr (Suc k) ?aa1 ?refs1 = Inr (aa', refs')"
    by (simp add: p s1 s2)
  note IH = "3.IH" [OF p s1 s2 r]
  show ?case
  proof (intro conjI allI impI)
    show "length aa' = length aa" "length refs' = length refs" using IH by simp_all
  next
    fix j assume "j < k" then show "aa' ! j = aa ! j" "refs' ! j = refs ! j" using IH by simp_all
  next
    fix j assume j: "j < length (Tuple arg_p arg_offset # rest)"
      and u: "(Tuple arg_p arg_offset # rest) ! j = Val_unit"
    then obtain m where m: "j = Suc m" "m < length rest" "rest ! m = Val_unit"
      by (cases j) simp_all
    then show "aa' ! (k + j) = aa ! (k + j)" using IH by simp
  next
    fix j str off
    assume j: "j < length (Tuple arg_p arg_offset # rest)"
      and t: "(Tuple arg_p arg_offset # rest) ! j = Tuple (String_block str) off"
    show "aa' ! (k + j) = vr + of_nat (k + j) * sizeof_ptr"
    proof (cases j)
      case 0 then show ?thesis using IH ka by simp
    next
      case (Suc m)
      then have "m < length rest" "rest ! m = Tuple (String_block str) off" using j t by simp_all
      then show ?thesis using IH Suc by simp
    qed
    show "refs' ! (k + j) = Some (str + scast (Int_val off))"
    proof (cases j)
      case 0 then show ?thesis using IH kr t p by simp
    next
      case (Suc m)
      then have "m < length rest" "rest ! m = Tuple (String_block str) off" using j t by simp_all
      then show ?thesis using IH Suc by simp
    qed
  qed
qed

subsection \<open>The trace of a call\<close>

lemma populate_loop_length:
  "populate_loop tys cb i k off = Inr pos \<Longrightarrow> length pos = k"
  by (induction k arbitrary: i off pos) (auto split: sum.splits option.splits)


lemma sum_case_pair: "(case x of Inl e \<Rightarrow> (Inl e, v) | Inr y \<Rightarrow> (Inr y, v)) = (x, v)"
  by (cases x) simp_all

lemma ctypes_call_dispatched:
  assumes "call_setup cb vr fn s aw = Inr d"
  shows "ctypes_call native cb vr fnname fn s aw rr w =
     (case native d
             (w\<lparr>errno := (if check_errno (call_ctx s) then 0 else errno w),
                trace := trace w
                  @ (if runtime_lock (call_ctx s) then [Release_runtime_system] else [])
                  @ (if check_errno (call_ctx s) then [Errno_reset] else [])
                  @ [Ffi_call d]\<rparr>) of
        (Inl e, w3) \<Rightarrow> (Inl e, w3)
      | (Inr u, w3) \<Rightarrow>
          (if check_errno (call_ctx s) \<and> errno w3 \<noteq> 0
           then Inl (Unix_error (errno w3) (strcpy fnname)) else rr (d_rvalue d),
           w3\<lparr>trace := trace w3
                  @ (if check_errno (call_ctx s) then [Errno_saved (errno w3)] else [])
                  @ (if runtime_lock (call_ctx s) then [Acquire_runtime_system] else [])\<rparr>))"
  using assms
  by (simp add: ctypes_call_def Let_def emit_def ffi_call_def caml_release_runtime_system_def
      caml_acquire_runtime_system_def sum_case_pair split: sum.splits prod.splits)

lemma ctypes_call_trace:
  assumes "call_setup cb vr fn s aw = Inr d"
  shows "trace (snd (ctypes_call (returning native) cb vr fnname fn s aw rr w)) =
           trace w
           @ (if runtime_lock (call_ctx s) then [Release_runtime_system] else [])
           @ (if check_errno (call_ctx s) then [Errno_reset] else [])
           @ [Ffi_call d]
           @ (if check_errno (call_ctx s) then [Errno_saved (native d 0)] else [])
           @ (if runtime_lock (call_ctx s) then [Acquire_runtime_system] else [])"
  by (simp add: ctypes_call_dispatched [OF assms] returning_def)

lemma ctypes_call_result:
  assumes "call_setup cb vr fn s aw = Inr d"
  shows "fst (ctypes_call (returning native) cb vr fnname fn s aw rr w) =
           (if check_errno (call_ctx s) \<and> native d 0 \<noteq> 0
            then Inl (Unix_error (native d 0) (strcpy fnname))
            else rr (d_rvalue d))"
    and "errno (snd (ctypes_call (returning native) cb vr fnname fn s aw rr w)) =
           (if check_errno (call_ctx s) then native d 0 else native d (errno w))"
  by (simp_all add: ctypes_call_dispatched [OF assms] returning_def)

lemma call_setup_ctx:
  "call_setup cb vr fn (s\<lparr>call_ctx := c\<rparr>) aw = call_setup cb vr fn s aw"
  by (simp add: call_setup_def compute_arg_buffer_size_def populate_arg_array_def Let_def
      cong: sum.case_cong)

lemma strcpy_no_zero: "CHR 0x00 \<notin> set name \<Longrightarrow> strcpy name = name"
  by (auto simp: strcpy_def)

lemma call_setup_parts:
  assumes "call_setup cb vr fn s aw = Inr d"
  shows "\<exists>arg_array written.
           populate_arg_array s cb = Inr arg_array \<and> aw cb = Inr written \<and>
           length arg_array = unat (nelements s) \<and>
           patch_loop (map written [0 ..< unat (nelements s)]) vr 0 arg_array
             (replicate (unat (nelements s)) None) = Inr (d_avalue d, d_refs d)"
  using assms
  by (auto simp: call_setup_def Let_def populate_arg_array_def populate_loop_length
      split: if_splits sum.splits)

lemma Int_val_in_range:
  assumes "- 2147483648 \<le> v" and "v < 2147483648"
  shows "(scast (Int_val v) :: size_t) = word_of_int v"
proof -
  have "sint (word_of_int v :: c_int) = v"
    using assms by (simp add: sint_sbintrunc' signed_take_bit_int_eq_self)
  then show ?thesis by (simp only: scast_word_of_int_sint Int_val_def)
qed

lemma patched_slots:
  assumes ready: "call_setup cb vr fn s aw = Inr d"
    and i: "i < unat (nelements s)"
  shows "\<exists>arg_array written.
           populate_arg_array s cb = Inr arg_array \<and> aw cb = Inr written \<and>
           length (d_avalue d) = unat (nelements s) \<and>
           length (d_refs d) = unat (nelements s) \<and>
           (\<forall>str off. written i = Tuple (String_block str) off \<longrightarrow>
              d_avalue d ! i = vr + of_nat i * sizeof_ptr \<and>
              d_refs d ! i = Some (str + scast (Int_val off)) \<and>
              (- 2147483648 \<le> off \<and> off < 2147483648 \<longrightarrow>
                 d_refs d ! i = Some (str + word_of_int off))) \<and>
           (written i = Val_unit \<longrightarrow> d_avalue d ! i = arg_array ! i)"
proof -
  from call_setup_parts [OF ready] obtain arg_array written where
    p: "populate_arg_array s cb = Inr arg_array" and a: "aw cb = Inr written"
    and l: "length arg_array = unat (nelements s)"
    and q: "patch_loop (map written [0 ..< unat (nelements s)]) vr 0 arg_array
             (replicate (unat (nelements s)) None) = Inr (d_avalue d, d_refs d)"
    by blast
  note R = patch_loop_result [OF q]
  have ii: "i < length (map written [0 ..< unat (nelements s)])" using i by simp
  have wi: "map written [0 ..< unat (nelements s)] ! i = written i" using i by simp
  have u: "written i = Val_unit \<longrightarrow> d_avalue d ! i = arg_array ! i"
    using R ii wi by (metis add_0)
  have v: "\<forall>str off. written i = Tuple (String_block str) off \<longrightarrow>
              d_avalue d ! i = vr + of_nat i * sizeof_ptr \<and>
              d_refs d ! i = Some (str + scast (Int_val off))"
    using R ii wi by (metis add_0)
  show ?thesis using p a l R u v Int_val_in_range by simp
qed

subsection \<open>The bridge\<close>

lemma sint_of_nat_small:
  assumes "n < 2 ^ 31"
  shows "sint (of_nat n :: 32 word) = int n"
proof -
  have "uint (of_nat n :: 32 word) = int n"
    using assms by (simp add: uint_nat unat_of_nat)
  moreover have "int n < 2 ^ 31" using assms by (metis of_nat_less_iff of_nat_numeral of_nat_power)
  ultimately show ?thesis
    by (simp add: sint_uint signed_take_bit_int_eq_self)
qed

lemma trace_emit: "trace (emit ev w) = trace w @ [ev]"
  by (simp add: emit_def)

lemma apply_loop_accepts:
  assumes "i + k = length cargs" and "accepts boxed (map Ptr_arg (drop i cargs))"
  shows "fst (apply_loop cargs i k boxed w) = Inr Done \<and>
         trace (snd (apply_loop cargs i k boxed w))
           = trace w @ map (\<lambda>a. Apply_Fn (Ptr_arg a)) (drop i cargs)"
  using assms
proof (induction k arbitrary: i boxed w)
  case 0
  then show ?case by (cases boxed) simp_all
next
  case (Suc k)
  have i: "i < length cargs" using Suc.prems(1) by simp
  have d: "drop i cargs = cargs ! i # drop (Suc i) cargs" using i by (simp add: Cons_nth_drop_Suc)
  from Suc.prems(2) d obtain f where f: "boxed = Fn f"
    and a: "accepts (f (Ptr_arg (cargs ! i))) (map Ptr_arg (drop (Suc i) cargs))"
    by (cases boxed) simp_all
  have l: "load cargs i = Inr (cargs ! i)" using i by (simp add: load_def)
  have n: "Suc i + k = length cargs" using Suc.prems(1) by simp
  note IH = Suc.IH [OF n a, of "emit (Apply_Fn (Ptr_arg (cargs ! i))) w"]
  show ?case using IH by (simp add: l f d trace_emit)
qed





section \<open>Claims about the builder\<close>

text \<open>
  C1. Appending an argument to a prepared specification is rejected, and so should be
  preparing a prepared specification. The stub for appending asserts the state
  \<open>BUILDING\<close>; the stub for preparing asserts nothing: on the specification of one
  \<^verbatim>\<open>int\<close> argument that was prepared once, appending fails the assertion, while a
  second preparation returns unit, moves the return offset from 4 to 16 and the size
  from 16 to 32.
\<close>

theorem prep_callspec_twice_accepted:
  "state spec_int_prepared = CALLSPEC \<and>
   roffset spec_int_prepared = 4 \<and>
   bytes spec_int_prepared = 16 \<and>
   fst (ctypes_add_argument spec_int_prepared int_type) = Inl Assert_failure \<and>
   fst (ctypes_prep_callspec accepting_prep_cif spec_int_prepared 2 int_type) = Inr () \<and>
   state (snd (ctypes_prep_callspec accepting_prep_cif spec_int_prepared 2 int_type))
     = CALLSPEC \<and>
   roffset (snd (ctypes_prep_callspec accepting_prep_cif spec_int_prepared 2 int_type))
     = 16 \<and>
   bytes (snd (ctypes_prep_callspec accepting_prep_cif spec_int_prepared 2 int_type)) = 32"
  by code_simp

text \<open>
  C4, as stated: the offsets of the engine's walk are those the builder returned, and
  each depends on the preceding arguments only. This fails for an argument of 2 GiB
  followed by one byte: the builder returns the offsets 0 and -2147483648, the walk
  computes 0 and 2147483648. It also fails to mention the argument's own alignment:
  after the same one-byte argument, a type aligned to 4 lies at 4 and a type aligned to
  1 lies at 1.
\<close>

theorem layout_agreement_counterexample:
  "fst (add_arguments (ctypes_allocate_callspec False False) [huge_type, byte_type])
     = Inr [0, - 2147483648] \<and>
   populate_arg_array
     (snd (add_arguments (ctypes_allocate_callspec False False) [huge_type, byte_type])) 0
     = Inr [0, 0x80000000] \<and>
   populate_loop [Some byte_type, Some int_type] 0 0 2 0 = Inr [0, 4] \<and>
   populate_loop [Some byte_type, Some byte_type] 0 0 2 0 = Inr [0, 1]"
  by code_simp

text \<open>
  C4, amended: for a list of fewer than \<open>2 ^ 32\<close> types on which the engine's walk
  succeeds with every offset at most \<^verbatim>\<open>INT_MAX\<close>, the builder started from a new
  specification returns exactly these offsets, and the walk over the built
  specification, before and after preparation, puts argument \<open>i\<close> at the buffer
  address plus offset \<open>i\<close>. The offsets of a list are the first offsets of every
  longer list: an offset depends on the argument's alignment and on the arguments
  before it, not on those after it.
\<close>

theorem layout_agreement:
  assumes walk: "populate_loop (map Some ts) 0 0 (length ts) 0 = Inr pos"
    and fits: "\<forall>p\<in>set pos. p \<le> 0x7FFFFFFF"
    and len: "length ts < 2 ^ 32"
  shows "fst (add_arguments (ctypes_allocate_callspec ce rl) ts) = Inr (map uint pos) \<and>
         populate_arg_array (snd (add_arguments (ctypes_allocate_callspec ce rl) ts)) callbuffer
           = Inr (map (\<lambda>p. callbuffer + p) pos) \<and>
         populate_arg_array
           (snd (ctypes_prep_callspec prep
                  (snd (add_arguments (ctypes_allocate_callspec ce rl) ts)) abi rt)) callbuffer
           = Inr (map (\<lambda>p. callbuffer + p) pos) \<and>
         (\<forall>us pos'. populate_loop (map Some (ts @ us)) 0 0 (length (ts @ us)) 0 = Inr pos'
            \<longrightarrow> take (length ts) pos' = pos)"
proof -
  let ?ini = "ctypes_allocate_callspec ce rl"
  let ?built = "snd (add_arguments ?ini ts)"
  have s0: "state ?ini = BUILDING" "bytes ?ini = 0" "nelements ?ini = 0"
    by (simp_all add: ctypes_allocate_callspec_def callspec_prototype_def)
  have nb: "unat (nelements ?ini) + length ts < 2 ^ 60" using len by (simp add: s0)
  have w: "populate_loop (map Some ts) 0 0 (length ts) (bytes ?ini) = Inr pos"
    using walk by (simp add: s0)
  note B = add_arguments_walk [OF s0(1) args_wf_allocate nb w fits]
  have n: "unat (nelements ?built) = length ts" using B by (simp add: s0)
  have tk: "take (0 + length ts) (args ?built) = take (0 + length ts) (map Some ts)"
    using B by (simp add: s0)
  have "populate_loop (args ?built) 0 0 (length ts) 0 = Inr pos"
    using populate_loop_take [OF tk] walk by simp
  then have "populate_loop (args ?built) callbuffer 0 (length ts) 0 = Inr (map (\<lambda>p. callbuffer + p) pos)"
    using populate_loop_base [of "args ?built" 0 0 "length ts" 0 pos callbuffer] by simp
  then have p: "populate_arg_array ?built callbuffer = Inr (map (\<lambda>p. callbuffer + p) pos)"
    by (simp add: populate_arg_array_def n)
  have p2: "populate_arg_array (snd (ctypes_prep_callspec prep ?built abi rt)) callbuffer
              = populate_arg_array ?built callbuffer"
    by (simp add: populate_arg_array_def prep_callspec_keeps_args)
  show ?thesis using B p p2 populate_loop_prefix [OF walk] by simp
qed

theorem layout_agreement_witness:
  "populate_loop (map Some [int_type, double_type, byte_type]) 0 0
     (length [int_type, double_type, byte_type]) 0 = Inr [0, 8, 16] \<and>
   length [int_type, double_type, byte_type] < (2 :: nat) ^ 32 \<and>
   fst (add_arguments (ctypes_allocate_callspec True True) [int_type, double_type, byte_type])
     = Inr [0, 8, 16] \<and>
   populate_arg_array
     (snd (ctypes_prep_callspec accepting_prep_cif
        (snd (add_arguments (ctypes_allocate_callspec True True)
               [int_type, double_type, byte_type])) 0 int_type)) 1000
     = Inr [1000, 1008, 1016]"
proof -
  have h1: "populate_loop (map Some [int_type, double_type, byte_type]) 0 0
     (length [int_type, double_type, byte_type]) 0 = Inr [0, 8, 16]" by code_simp
  have h2: "\<forall>p\<in>set [0, 8, 16 :: size_t]. p \<le> 0x7FFFFFFF" by simp
  have h3: "length [int_type, double_type, byte_type] < (2 :: nat) ^ 32" by simp
  from layout_agreement [OF h1 h2 h3, of True True 1000 accepting_prep_cif 0 int_type]
  show ?thesis using h1 h3 by simp
qed

text \<open>
  C5, as stated: for every specification in state Building, appending returns the
  aligned running size, and the capacity grows geometrically. On the specification
  holding one argument of 2 GiB the aligned running size is 2147483648 and the call
  returns -2147483648, continuing the running size from the sign-extended value. The
  capacity is 8 after six appended arguments, 16 after fourteen and 24 after fifteen:
  it grows by eight slots at a time.
\<close>

theorem add_argument_layout_counterexample:
  "state spec_2g = BUILDING \<and> bytes spec_2g = 0x80000000 \<and>
   aligned_offset (bytes spec_2g) (ffi_alignment byte_type) = Inr 0x80000000 \<and>
   fst (ctypes_add_argument spec_2g byte_type) = Inr (- 2147483648) \<and>
   bytes (snd (ctypes_add_argument spec_2g byte_type)) = 0xFFFFFFFF80000001 \<and>
   capacity (snd (add_arguments (ctypes_allocate_callspec False False)
                    (replicate 6 byte_type))) = 8 \<and>
   capacity (snd (add_arguments (ctypes_allocate_callspec False False)
                    (replicate 14 byte_type))) = 16 \<and>
   capacity (snd (add_arguments (ctypes_allocate_callspec False False)
                    (replicate 15 byte_type))) = 24"
  by code_simp

text \<open>
  C5, amended: for a specification in state Building with consistent bookkeeping and
  fewer than \<open>2 ^ 60\<close> elements, and a type token of nonzero alignment such that the
  running size rounded up to the alignment is at most \<^verbatim>\<open>INT_MAX\<close>, appending
  returns that rounded value as the offset; afterwards the running size is the offset
  plus the token's size (in \<^verbatim>\<open>size_t\<close> arithmetic), the token is the last element
  of the type list, the capacity is eight slots larger when fewer than three slots were
  free and unchanged otherwise, so it never shrinks, and the maximal alignment is the
  maximum of the old one and the token's. State and consistency are kept, so the same
  holds for the next appended argument.
\<close>

theorem add_argument_layout:
  assumes st: "state s = BUILDING" and wf: "args_wf s"
    and nb: "unat (nelements s) < 2 ^ 60"
    and al: "ffi_alignment t \<noteq> 0"
    and fit: "alignUp (unat (bytes s)) (unat (ffi_alignment t)) \<le> 2147483647"
  shows "fst (ctypes_add_argument s t)
           = Inr (int (alignUp (unat (bytes s)) (unat (ffi_alignment t)))) \<and>
         bytes (snd (ctypes_add_argument s t))
           = of_nat (alignUp (unat (bytes s)) (unat (ffi_alignment t))) + ffi_size t \<and>
         nelements (snd (ctypes_add_argument s t)) = nelements s + 1 \<and>
         take (unat (nelements s) + 1) (args (snd (ctypes_add_argument s t)))
           = take (unat (nelements s)) (args s) @ [Some t] \<and>
         capacity (snd (ctypes_add_argument s t))
           = (if capacity s \<le> nelements s + 2 then capacity s + 8 else capacity s) \<and>
         capacity s \<le> capacity (snd (ctypes_add_argument s t)) \<and>
         max_align (snd (ctypes_add_argument s t)) = max (max_align s) (ffi_alignment t) \<and>
         state (snd (ctypes_add_argument s t)) = BUILDING \<and>
         args_wf (snd (ctypes_add_argument s t))"
proof -
  have "alignUp (unat (bytes s)) (unat (ffi_alignment t)) < 2 ^ 64" using fit by simp
  from aligned_offset_alignUp [OF al this] obtain a where
    a: "aligned_offset (bytes s) (ffi_alignment t) = Inr a"
    and ua: "unat a = alignUp (unat (bytes s)) (unat (ffi_alignment t))" by blast
  have le: "a \<le> 0x7FFFFFFF" using fit ua by (simp add: word_le_nat_alt)
  have wa: "of_nat (alignUp (unat (bytes s)) (unat (ffi_alignment t))) = a"
    using of_nat_unat [of a, where ?'a = "64 word"] ua by simp
  have ia: "uint a = int (alignUp (unat (bytes s)) (unat (ffi_alignment t)))"
    using ua by (metis uint_nat)
  note S = add_argument_step [OF st wf nb a]
  note W = args_wf_step [OF st wf nb a]
  have "unat (capacity s) < 2 ^ 60 + 10" using wf nb by (auto simp: args_wf_def)
  then have c: "unat (capacity s) < 2 ^ 63" by simp
  have mono: "capacity s \<le> capacity (snd (ctypes_add_argument s t))"
    using S(4) unat_plus_8 [OF c] by (auto simp: word_le_nat_alt)
  show ?thesis
    using S(1,2,3,4,5,9,10) W(1) mono sint_ucast_fits [OF le] scast_ucast_fits [OF le]
    by (simp add: wa ia)
qed

theorem add_argument_layout_witness:
  "state spec_byte = BUILDING \<and> args_wf spec_byte \<and> unat (nelements spec_byte) < 2 ^ 60 \<and>
   ffi_alignment int_type \<noteq> 0 \<and>
   alignUp (unat (bytes spec_byte)) (unat (ffi_alignment int_type)) = 4 \<and>
   fst (ctypes_add_argument spec_byte int_type) = Inr 4 \<and>
   bytes (snd (ctypes_add_argument spec_byte int_type)) = 8 \<and>
   nelements (snd (ctypes_add_argument spec_byte int_type)) = 2 \<and>
   take (unat (nelements spec_byte) + 1) (args (snd (ctypes_add_argument spec_byte int_type)))
     = [Some byte_type, Some int_type] \<and>
   capacity (snd (ctypes_add_argument spec_byte int_type)) = 8 \<and>
   max_align (snd (ctypes_add_argument spec_byte int_type)) = 4"
proof -
  have h1: "state spec_byte = BUILDING" by code_simp
  have h2: "args_wf spec_byte" by code_simp
  have n: "nelements spec_byte = 1" by code_simp
  have h3: "unat (nelements spec_byte) < 2 ^ 60" by (simp add: n)
  have h4: "ffi_alignment int_type \<noteq> 0" by code_simp
  have v: "alignUp (unat (bytes spec_byte)) (unat (ffi_alignment int_type)) = 4" by code_simp
  have h5: "alignUp (unat (bytes spec_byte)) (unat (ffi_alignment int_type)) \<le> 2147483647"
    by (simp add: v)
  have e: "ffi_size int_type = 4" "capacity spec_byte = 8" "max_align spec_byte = 1"
    "ffi_alignment int_type = 4"
    "take (unat (nelements spec_byte)) (args spec_byte) = [Some byte_type]"
    by code_simp+
  note T = add_argument_layout [OF h1 h2 h3 h4 h5, unfolded v]
  have t1: "fst (ctypes_add_argument spec_byte int_type) = Inr 4" using T by simp
  have t2: "bytes (snd (ctypes_add_argument spec_byte int_type)) = 8"
    using T by (simp add: e)
  have t3: "nelements (snd (ctypes_add_argument spec_byte int_type)) = 2"
    using T by (simp add: n)
  have t4: "take (unat (nelements spec_byte) + 1)
              (args (snd (ctypes_add_argument spec_byte int_type)))
            = [Some byte_type, Some int_type]"
    using T e(5) by simp
  have t5: "capacity (snd (ctypes_add_argument spec_byte int_type)) = 8"
    using T by (simp add: e n)
  have t6: "max_align (snd (ctypes_add_argument spec_byte int_type)) = 4"
    using T by (simp add: e)
  show ?thesis using h1 h2 h3 h4 v t1 t2 t3 t4 t5 t6 by blast
qed

text \<open>
  C6. Preparation sets the return offset to the running size rounded up to the
  alignment of the return type, adds the size of the return type, rounds up to pointer
  alignment and adds one pointer; the call buffer is that size rounded up to pointer
  alignment plus one pointer per argument. It is stated for every specification and
  return type of nonzero alignment that the library accepts. The roundings are those of
  \<^verbatim>\<open>aligned_offset\<close>; each is the rule of the specification on the values whenever
  the rounded value is below \<open>2 ^ 64\<close>.
\<close>

theorem prep_callspec_layout:
  assumes al: "aligned_offset (bytes s) (ffi_alignment rt) = Inr ro"
    and ok: "fst (prep abi (nelements s) rt (args s)) = FFI_OK"
  shows "\<exists>b off.
           aligned_offset (ro + ffi_size rt) (ffi_alignment ffi_type_pointer) = Inr b \<and>
           aligned_offset (b + ffi_size ffi_type_pointer) (ffi_alignment ffi_type_pointer)
             = Inr off \<and>
           fst (ctypes_prep_callspec prep s abi rt) = Inr () \<and>
           roffset (snd (ctypes_prep_callspec prep s abi rt)) = ro \<and>
           bytes (snd (ctypes_prep_callspec prep s abi rt)) = b + ffi_size ffi_type_pointer \<and>
           state (snd (ctypes_prep_callspec prep s abi rt)) = CALLSPEC \<and>
           compute_arg_buffer_size (snd (ctypes_prep_callspec prep s abi rt))
             = Inr (off + nelements s * sizeof_ptr, off) \<and>
           (alignUp (unat (bytes s)) (unat (ffi_alignment rt)) < 2 ^ 64 \<longrightarrow>
              unat ro = alignUp (unat (bytes s)) (unat (ffi_alignment rt))) \<and>
           (alignUp (unat (ro + ffi_size rt)) 8 < 2 ^ 64 \<longrightarrow>
              unat b = alignUp (unat (ro + ffi_size rt)) 8) \<and>
           (alignUp (unat (b + 8)) 8 < 2 ^ 64 \<longrightarrow>
              unat off = alignUp (unat (b + 8)) 8)"
proof -
  obtain b where b: "aligned_offset (ro + ffi_size rt) (ffi_alignment ffi_type_pointer) = Inr b"
    using aligned_offset_pointer by blast
  obtain off where off:
    "aligned_offset (b + ffi_size ffi_type_pointer) (ffi_alignment ffi_type_pointer) = Inr off"
    using aligned_offset_pointer by blast
  have r: "ctypes_prep_callspec prep s abi rt =
    (Inr (), s\<lparr>roffset := ro, bytes := b + ffi_size ffi_type_pointer,
               cif := Some (snd (prep abi (nelements s) rt (args s))), state := CALLSPEC\<rparr>)"
    using al b ok by (simp add: ctypes_prep_callspec_def Let_def ctypes_check_ffi_status_def)
  have p8: "ffi_alignment ffi_type_pointer = 8" "ffi_size ffi_type_pointer = 8"
    by (simp_all add: ffi_type_pointer_def)
  have u1: "alignUp (unat (bytes s)) (unat (ffi_alignment rt)) < 2 ^ 64 \<longrightarrow>
              unat ro = alignUp (unat (bytes s)) (unat (ffi_alignment rt))"
    using aligned_offset_unat [OF al] by simp
  have u2: "alignUp (unat (ro + ffi_size rt)) 8 < 2 ^ 64 \<longrightarrow>
              unat b = alignUp (unat (ro + ffi_size rt)) 8"
    using aligned_offset_unat [OF b] by (simp add: p8)
  have u3: "alignUp (unat (b + 8)) 8 < 2 ^ 64 \<longrightarrow> unat off = alignUp (unat (b + 8)) 8"
    using aligned_offset_unat [OF off] by (simp add: p8)
  show ?thesis using b off u1 u2 u3 by (simp add: r compute_arg_buffer_size_def)
qed

text \<open>
  The round trip of C6: for the arguments of sizes and alignments 4, 8, 1 (offsets 0, 8,
  16, running size 17) and a return type of size and alignment 4, the return offset is
  20, the size 32 and the call buffer 56 bytes.
\<close>

theorem prep_callspec_layout_witness:
  "aligned_offset (bytes spec_4_8_1) (ffi_alignment int_type) = Inr 20 \<and>
   fst (accepting_prep_cif 0 (nelements spec_4_8_1) int_type (args spec_4_8_1)) = FFI_OK \<and>
   fst (add_arguments (ctypes_allocate_callspec False False) [int_type, double_type, byte_type])
     = Inr [0, 8, 16] \<and>
   bytes spec_4_8_1 = 17 \<and>
   roffset (snd (ctypes_prep_callspec accepting_prep_cif spec_4_8_1 0 int_type)) = 20 \<and>
   bytes (snd (ctypes_prep_callspec accepting_prep_cif spec_4_8_1 0 int_type)) = 32 \<and>
   compute_arg_buffer_size (snd (ctypes_prep_callspec accepting_prep_cif spec_4_8_1 0 int_type))
     = Inr (56, 32) \<and>
   (56 :: nat) = alignUp (alignUp (alignUp 17 4 + 4) 8 + 8) 8 + 3 * 8"
proof -
  have h1: "aligned_offset (bytes spec_4_8_1) (ffi_alignment int_type) = Inr 20" by code_simp
  have h2: "fst (accepting_prep_cif 0 (nelements spec_4_8_1) int_type (args spec_4_8_1)) = FFI_OK"
    by (simp add: accepting_prep_cif_def)
  have h3: "aligned_offset (20 + ffi_size int_type) (ffi_alignment ffi_type_pointer) = Inr 24"
    by code_simp
  have h4: "aligned_offset (24 + ffi_size ffi_type_pointer) (ffi_alignment ffi_type_pointer) = Inr 32"
    by code_simp
  have h5: "nelements spec_4_8_1 = 3" "bytes spec_4_8_1 = 17"
    "fst (add_arguments (ctypes_allocate_callspec False False) [int_type, double_type, byte_type])
     = Inr [0, 8, 16]" by code_simp+
  have h6: "(56 :: nat) = alignUp (alignUp (alignUp 17 4 + 4) 8 + 8) 8 + 3 * 8" by code_simp
  have h7: "ffi_size ffi_type_pointer = 8" "sizeof_ptr = 8"
    by (simp_all add: ffi_type_pointer_def sizeof_ptr_def)
  from prep_callspec_layout [of spec_4_8_1 int_type 20 accepting_prep_cif 0, OF h1 h2]
  show ?thesis
    using h1 h2 h3 h4 h5 h6 by (auto simp: h7)
qed

text \<open>
  C10. The offset that appending returns is the running size rounded up to the
  alignment, cut to 32 bits and read as a signed \<^verbatim>\<open>int\<close>; the call does not fail.
  It is the rounded running size when that is at most \<^verbatim>\<open>INT_MAX\<close>; above that
  bound it is smaller than the rounded running size kept in \<^verbatim>\<open>size_t\<close>, and
  agrees with it modulo \<open>2 ^ 32\<close>. The running size then continues from the returned
  \<^verbatim>\<open>int\<close>, extended with its sign. The call reads the return offset through an
  \<^verbatim>\<open>int\<close> in the same way: the return slot is the buffer address plus the low 32
  bits of the return offset, read with their sign.
\<close>

theorem int_offset_truncation:
  assumes st: "state s = BUILDING" and wf: "args_wf s"
    and nb: "unat (nelements s) < 2 ^ 60"
    and al: "ffi_alignment t \<noteq> 0"
    and nowrap: "alignUp (unat (bytes s)) (unat (ffi_alignment t)) < 2 ^ 64"
  shows "\<exists>r. fst (ctypes_add_argument s t) = Inr r \<and>
           r = sint (word_of_nat (alignUp (unat (bytes s)) (unat (ffi_alignment t))) :: c_int) \<and>
           - 2147483648 \<le> r \<and> r \<le> 2147483647 \<and>
           r mod 2 ^ 32 = int (alignUp (unat (bytes s)) (unat (ffi_alignment t))) mod 2 ^ 32 \<and>
           (alignUp (unat (bytes s)) (unat (ffi_alignment t)) \<le> 2147483647 \<longrightarrow>
              r = int (alignUp (unat (bytes s)) (unat (ffi_alignment t)))) \<and>
           (2147483647 < alignUp (unat (bytes s)) (unat (ffi_alignment t)) \<longrightarrow>
              r < int (alignUp (unat (bytes s)) (unat (ffi_alignment t)))) \<and>
           bytes (snd (ctypes_add_argument s t)) = word_of_int r + ffi_size t \<and>
           (\<forall>callbuffer val_refs function prepared argwriter d.
              call_setup callbuffer val_refs function prepared argwriter = Inr d \<longrightarrow>
                d_rvalue d = callbuffer + word_of_int (sint (ucast (roffset prepared) :: c_int)) \<and>
                (roffset prepared \<le> 0x7FFFFFFF \<longrightarrow> d_rvalue d = callbuffer + roffset prepared))"
proof -
  let ?A = "alignUp (unat (bytes s)) (unat (ffi_alignment t))"
  from aligned_offset_alignUp [OF al nowrap] obtain a where
    a: "aligned_offset (bytes s) (ffi_alignment t) = Inr a" and ua: "unat a = ?A" by blast
  have ia: "uint a = int ?A" using ua by (metis uint_nat)
  have ca: "(word_of_nat ?A :: c_int) = ucast a"
    using of_nat_unat [of a, where ?'a = "c_int"] ua by simp
  let ?r = "sint (ucast a :: c_int)"
  note S = add_argument_step(1,2) [OF st wf nb a]
  have lo: "- 2147483648 \<le> ?r" using sint_ge [of "ucast a :: c_int"] by simp
  have hi: "?r \<le> 2147483647" using sint_lt [of "ucast a :: c_int"] by simp
  have md: "?r mod 2 ^ 32 = int ?A mod 2 ^ 32" using sint_ucast_mod [of a] ia by simp
  have fit: "?A \<le> 2147483647 \<longrightarrow> ?r = int ?A"
  proof
    assume "?A \<le> 2147483647"
    then have "a \<le> 0x7FFFFFFF" using ua by (simp add: word_le_nat_alt)
    from sint_ucast_fits [OF this] show "?r = int ?A" using ia by simp
  qed
  have ov: "2147483647 < ?A \<longrightarrow> ?r < int ?A"
  proof
    assume "2147483647 < ?A"
    then have "0x7FFFFFFF < a" using ua by (simp add: word_less_nat_alt)
    from sint_ucast_overflow [OF this] show "?r < int ?A" using ia by simp
  qed
  have bs: "bytes (snd (ctypes_add_argument s t)) = word_of_int ?r + ffi_size t"
    using S(2) by (simp only: scast_word_of_int_sint)
  have ro: "\<forall>callbuffer val_refs function prepared argwriter d.
              call_setup callbuffer val_refs function prepared argwriter = Inr d \<longrightarrow>
                d_rvalue d = callbuffer + word_of_int (sint (ucast (roffset prepared) :: c_int)) \<and>
                (roffset prepared \<le> 0x7FFFFFFF \<longrightarrow> d_rvalue d = callbuffer + roffset prepared)"
  proof (intro allI impI conjI)
    fix callbuffer val_refs fnaddr prepared argwriter d
    assume c: "call_setup callbuffer val_refs fnaddr prepared argwriter = Inr d"
    from call_setup_rvalue [OF c]
    have x: "d_rvalue d = callbuffer + scast (ucast (roffset prepared) :: c_int)" .
    show "d_rvalue d = callbuffer + word_of_int (sint (ucast (roffset prepared) :: c_int))"
      using x by (simp only: scast_word_of_int_sint)
    assume "roffset prepared \<le> 0x7FFFFFFF"
    from scast_ucast_fits [OF this] show "d_rvalue d = callbuffer + roffset prepared"
      using x by simp
  qed
  have r0: "?r = sint (word_of_nat ?A :: c_int)" by (simp only: ca)
  show ?thesis
    by (intro exI [of _ ?r] conjI) (rule S(1) r0 lo hi md fit ov bs ro)+
qed

theorem int_offset_truncation_witness:
  "state spec_2g1 = BUILDING \<and> args_wf spec_2g1 \<and> unat (nelements spec_2g1) < 2 ^ 60 \<and>
   alignUp (unat (bytes spec_2g1)) (unat (ffi_alignment int_type)) = 2147483652 \<and>
   fst (ctypes_add_argument spec_2g1 int_type) = Inr (- 2147483644) \<and>
   bytes (snd (ctypes_add_argument spec_2g1 int_type)) = 0xFFFFFFFF80000008 \<and>
   roffset spec_2g_prepared = 0x80000000 \<and>
   call_setup 1000 2000 77 spec_2g_prepared writer_unit = Inr dispatch_2g \<and>
   d_rvalue dispatch_2g = 1000 + word_of_int (- 2147483648)"
proof -
  have h1: "state spec_2g1 = BUILDING" by code_simp
  have h2: "args_wf spec_2g1" by code_simp
  have n: "nelements spec_2g1 = 1" by code_simp
  have h3: "unat (nelements spec_2g1) < 2 ^ 60" by (simp add: n)
  have h4: "ffi_alignment int_type \<noteq> 0" by code_simp
  have b: "bytes spec_2g1 = 0x80000001" "ffi_alignment int_type = 4" by code_simp+
  have v: "alignUp (unat (bytes spec_2g1)) (unat (ffi_alignment int_type)) = 2147483652"
    by (simp add: b alignUp_def)
  have h5: "alignUp (unat (bytes spec_2g1)) (unat (ffi_alignment int_type)) < 2 ^ 64"
    by (simp add: v)
  have e: "sint (word_of_nat 2147483652 :: c_int) = - 2147483644"
    "(word_of_int (- 2147483644) :: size_t) + ffi_size int_type = 0xFFFFFFFF80000008"
    "sint (ucast (0x80000000 :: size_t) :: c_int) = - 2147483648"
    by (simp_all add: int_type_def)
  have ro: "roffset spec_2g_prepared = 0x80000000" by code_simp
  have c: "call_setup 1000 2000 77 spec_2g_prepared writer_unit = Inr dispatch_2g"
    by code_simp
  note T = int_offset_truncation [OF h1 h2 h3 h4 h5, unfolded v]
  from T obtain r where r: "fst (ctypes_add_argument spec_2g1 int_type) = Inr r"
    "r = sint (word_of_nat 2147483652 :: c_int)"
    "bytes (snd (ctypes_add_argument spec_2g1 int_type)) = word_of_int r + ffi_size int_type"
    and q: "\<forall>callbuffer val_refs function prepared argwriter d.
              call_setup callbuffer val_refs function prepared argwriter = Inr d \<longrightarrow>
                d_rvalue d = callbuffer + word_of_int (sint (ucast (roffset prepared) :: c_int)) \<and>
                (roffset prepared \<le> 0x7FFFFFFF \<longrightarrow> d_rvalue d = callbuffer + roffset prepared)"
    by blast
  have t1: "fst (ctypes_add_argument spec_2g1 int_type) = Inr (- 2147483644)"
    using r(1,2) e(1) by simp
  have t2: "bytes (snd (ctypes_add_argument spec_2g1 int_type)) = 0xFFFFFFFF80000008"
    using r(2,3) e(1,2) by simp
  have t3: "d_rvalue dispatch_2g = 1000 + word_of_int (- 2147483648)"
    using q [rule_format, OF c] e(3) ro by simp
  show ?thesis using h1 h2 h3 v t1 t2 t3 ro c by blast
qed

section \<open>Claims about the invocation engine\<close>



text \<open>
  C3, as stated: with error checking, every call has its error code captured right after
  the dispatch, and a nonzero captured code fails with a system error tagged with the
  supplied function name. The name is copied with \<^verbatim>\<open>strcpy\<close>: for the name of the
  three bytes \<open>a\<close>, zero, \<open>b\<close> the error is tagged \<open>a\<close>. And when a bridge entered
  by the foreign function raises, the exception crosses the dispatch: the code is reset
  but never captured, and the call ends with that exception.
\<close>

theorem checked_errno_counterexample:
  "fst (ctypes_call (returning native_errno5) 1000 2000 name_with_zero 77 spec_checked
          writer_unit reader_addr world0)
     = Inl (Unix_error 5 ''a'') \<and>
   name_with_zero = ''a'' @ [CHR 0x00] @ ''b'' \<and>
   check_errno (call_ctx spec_checked) \<and>
   ctypes_call native_enters_bridge 1000 2000 ''puts'' 77 spec_checked writer_unit
       reader_addr world0
     = (Inl CallToExpiredClosure,
        \<lparr>errno = 0,
         trace = [Release_runtime_system, Errno_reset, Ffi_call dispatch_checked,
                  Acquire_runtime_system]\<rparr>)"
  by code_simp

text \<open>
  C3, amended. For a call whose first phase succeeds, whose specification checks the
  error code and whose foreign function returns, the events are: the release if the lock
  flag is set, the reset of the error code, the dispatch (which therefore starts from
  the code 0), the capture of the code, the reacquisition if the flag is set. If the
  captured code is nonzero the result is the system error with that code and the
  function name up to its first zero byte, which is the whole name when it has no zero
  byte; the reacquisition is in the trace at that point. Otherwise the result is the
  reader's. With the check switched off, the same call neither resets nor captures the
  code and its result is the reader's. The last conjunct is for every foreign function
  \<open>g\<close>, whatever events it adds: it starts from the code 0, right after the reset;
  when it returns, the code it leaves is captured next and decides the result as above;
  when it raises, the call ends with its exception and the environment it left.
\<close>

theorem checked_errno:
  assumes ready: "call_setup cb vr fn s aw = Inr d"
    and chk: "check_errno (call_ctx s)"
  shows "trace (snd (ctypes_call (returning native) cb vr fnname fn s aw rr w)) =
           trace w
           @ (if runtime_lock (call_ctx s) then [Release_runtime_system] else [])
           @ [Errno_reset, Ffi_call d, Errno_saved (native d 0)]
           @ (if runtime_lock (call_ctx s) then [Acquire_runtime_system] else []) \<and>
         fst (ctypes_call (returning native) cb vr fnname fn s aw rr w) =
           (if native d 0 = 0 then rr (d_rvalue d)
            else Inl (Unix_error (native d 0) (strcpy fnname))) \<and>
         strcpy fnname = takeWhile (\<lambda>c. c \<noteq> CHR 0x00) fnname \<and>
         (CHR 0x00 \<notin> set fnname \<longrightarrow> strcpy fnname = fnname) \<and>
         fst (ctypes_call (returning native) cb vr fnname fn
                (s\<lparr>call_ctx := (call_ctx s)\<lparr>check_errno := False\<rparr>\<rparr>) aw rr w)
           = rr (d_rvalue d) \<and>
         trace (snd (ctypes_call (returning native) cb vr fnname fn
                (s\<lparr>call_ctx := (call_ctx s)\<lparr>check_errno := False\<rparr>\<rparr>) aw rr w)) =
           trace w
           @ (if runtime_lock (call_ctx s) then [Release_runtime_system] else [])
           @ [Ffi_call d]
           @ (if runtime_lock (call_ctx s) then [Acquire_runtime_system] else []) \<and>
         (\<exists>start.
            errno start = 0 \<and>
            trace start =
              trace w
              @ (if runtime_lock (call_ctx s) then [Release_runtime_system] else [])
              @ [Errno_reset, Ffi_call d] \<and>
            (case g d start of
               (Inl e, w3) \<Rightarrow> ctypes_call g cb vr fnname fn s aw rr w = (Inl e, w3)
             | (Inr u, w3) \<Rightarrow>
                 fst (ctypes_call g cb vr fnname fn s aw rr w) =
                   (if errno w3 = 0 then rr (d_rvalue d)
                    else Inl (Unix_error (errno w3) (strcpy fnname))) \<and>
                 trace (snd (ctypes_call g cb vr fnname fn s aw rr w)) =
                   trace w3 @ [Errno_saved (errno w3)]
                   @ (if runtime_lock (call_ctx s) then [Acquire_runtime_system] else [])))"
proof -
  let ?u = "s\<lparr>call_ctx := (call_ctx s)\<lparr>check_errno := False\<rparr>\<rparr>"
  have su: "call_setup cb vr fn ?u aw = Inr d" using ready by (simp add: call_setup_ctx)
  let ?start = "w\<lparr>errno := 0,
                trace := trace w
                  @ (if runtime_lock (call_ctx s) then [Release_runtime_system] else [])
                  @ [Errno_reset, Ffi_call d]\<rparr>"
  have g1: "errno ?start = 0" by simp
  have g2: "trace ?start =
              trace w
              @ (if runtime_lock (call_ctx s) then [Release_runtime_system] else [])
              @ [Errno_reset, Ffi_call d]" by simp
  have g3: "case g d ?start of
               (Inl e, w3) \<Rightarrow> ctypes_call g cb vr fnname fn s aw rr w = (Inl e, w3)
             | (Inr u, w3) \<Rightarrow>
                 fst (ctypes_call g cb vr fnname fn s aw rr w) =
                   (if errno w3 = 0 then rr (d_rvalue d)
                    else Inl (Unix_error (errno w3) (strcpy fnname))) \<and>
                 trace (snd (ctypes_call g cb vr fnname fn s aw rr w)) =
                   trace w3 @ [Errno_saved (errno w3)]
                   @ (if runtime_lock (call_ctx s) then [Acquire_runtime_system] else [])"
    using chk by (simp add: ctypes_call_dispatched [OF ready] split: prod.splits sum.splits)
  have G: "\<exists>start.
            errno start = 0 \<and>
            trace start =
              trace w
              @ (if runtime_lock (call_ctx s) then [Release_runtime_system] else [])
              @ [Errno_reset, Ffi_call d] \<and>
            (case g d start of
               (Inl e, w3) \<Rightarrow> ctypes_call g cb vr fnname fn s aw rr w = (Inl e, w3)
             | (Inr u, w3) \<Rightarrow>
                 fst (ctypes_call g cb vr fnname fn s aw rr w) =
                   (if errno w3 = 0 then rr (d_rvalue d)
                    else Inl (Unix_error (errno w3) (strcpy fnname))) \<and>
                 trace (snd (ctypes_call g cb vr fnname fn s aw rr w)) =
                   trace w3 @ [Errno_saved (errno w3)]
                   @ (if runtime_lock (call_ctx s) then [Acquire_runtime_system] else []))"
    by (rule exI [of _ ?start]) (rule conjI [OF g1 conjI [OF g2 g3]])
  have R: "trace (snd (ctypes_call (returning native) cb vr fnname fn s aw rr w)) =
           trace w
           @ (if runtime_lock (call_ctx s) then [Release_runtime_system] else [])
           @ [Errno_reset, Ffi_call d, Errno_saved (native d 0)]
           @ (if runtime_lock (call_ctx s) then [Acquire_runtime_system] else []) \<and>
         fst (ctypes_call (returning native) cb vr fnname fn s aw rr w) =
           (if native d 0 = 0 then rr (d_rvalue d)
            else Inl (Unix_error (native d 0) (strcpy fnname))) \<and>
         strcpy fnname = takeWhile (\<lambda>c. c \<noteq> CHR 0x00) fnname \<and>
         (CHR 0x00 \<notin> set fnname \<longrightarrow> strcpy fnname = fnname) \<and>
         fst (ctypes_call (returning native) cb vr fnname fn ?u aw rr w)
           = rr (d_rvalue d) \<and>
         trace (snd (ctypes_call (returning native) cb vr fnname fn ?u aw rr w)) =
           trace w
           @ (if runtime_lock (call_ctx s) then [Release_runtime_system] else [])
           @ [Ffi_call d]
           @ (if runtime_lock (call_ctx s) then [Acquire_runtime_system] else [])"
    using ctypes_call_trace [OF ready, of native fnname rr w]
      ctypes_call_result(1) [OF ready, of native fnname rr w]
      ctypes_call_trace [OF su, of native fnname rr w]
      ctypes_call_result(1) [OF su, of native fnname rr w] chk
    by (auto simp: strcpy_def strcpy_no_zero)
  show ?thesis using R G by blast
qed

theorem checked_errno_witness:
  "call_setup 1000 2000 77 spec_checked writer_unit = Inr dispatch_checked \<and>
   check_errno (call_ctx spec_checked) \<and>
   fst (ctypes_call (returning native_errno5) 1000 2000 ''puts'' 77 spec_checked writer_unit
          reader_addr world0)
     = Inl (Unix_error 5 ''puts'') \<and>
   trace (snd (ctypes_call (returning native_errno5) 1000 2000 ''puts'' 77 spec_checked
          writer_unit reader_addr world0))
     = [Release_runtime_system, Errno_reset, Ffi_call dispatch_checked, Errno_saved 5,
        Acquire_runtime_system] \<and>
   fst (ctypes_call (returning native_errno5) 1000 2000 ''puts'' 77
          (spec_checked\<lparr>call_ctx := (call_ctx spec_checked)\<lparr>check_errno := False\<rparr>\<rparr>)
          writer_unit reader_addr world0)
     = Inr 1020"
proof -
  have h1: "call_setup 1000 2000 77 spec_checked writer_unit = Inr dispatch_checked"
    by code_simp
  have h2: "check_errno (call_ctx spec_checked)" by code_simp
  have e: "runtime_lock (call_ctx spec_checked)" "trace world0 = []"
    "d_rvalue dispatch_checked = 1020" "strcpy ''puts'' = ''puts''"
    by code_simp+
  from checked_errno [OF h1 h2, of native_errno5 "''puts''" reader_addr world0]
  show ?thesis using h1 h2 by (simp add: e native_errno5_def reader_addr_def)
qed

text \<open>
  C8. When the writer hands back a string block and an offset for an argument index, the
  slot of the pointer array should refer to the byte address of the string plus the
  offset. The stub sets the slot to the address of the element of \<open>val_refs\<close> of
  that index and stores in that element the byte address plus \<^verbatim>\<open>Int_val\<close> of the
  offset. For the string at 0x7FFFF78B65C8 and the offset \<open>2 ^ 32 + 3\<close> the element
  holds 0x7FFFF78B65CB, the address plus 3, where the address plus the offset is
  0x8000F78B65CB; the call is dispatched with it. For the offset 3 the element holds
  the address plus 3.
\<close>

theorem string_offset_truncated:
  "call_setup 1000 2000 77 spec_checked writer_far = Inr dispatch_far \<and>
   d_avalue dispatch_far ! 1 = 2000 + 1 * sizeof_ptr \<and>
   d_refs dispatch_far ! 1 = Some 0x7FFFF78B65CB \<and>
   (0x7FFFF78B65C8 :: addr) + 3 = 0x7FFFF78B65CB \<and>
   (0x7FFFF78B65C8 :: addr) + word_of_int 4294967299 = 0x8000F78B65CB \<and>
   trace (snd (ctypes_call (returning native_errno5) 1000 2000 ''puts'' 77 spec_checked
                 writer_far reader_addr world0))
     = [Release_runtime_system, Errno_reset, Ffi_call dispatch_far, Errno_saved 5,
        Acquire_runtime_system] \<and>
   call_setup 1000 2000 77 spec_checked writer_string = Inr dispatch_string \<and>
   d_refs dispatch_string ! 1 = Some (5000 + 3)"
  by code_simp

section \<open>Claims about the callback bridge\<close>

text \<open>
  C7, as stated: the bridge of an \<open>n\<close>-argument trampoline applies exactly \<open>n\<close>
  steps and then the result step, and for \<open>n = 0\<close> the terminal step directly. For
  \<open>n = 0\<close> the stub asserts that the resolved value is a step, applies it to unit and
  then applies the result step: the chain of one step is applied once, and the chain
  that is the result step itself fails the assertion.
\<close>

theorem bridge_applications_counterexample:
  "callback_handler registry_thunk cif_zero 900 [] (closure_locked 3) world0
     = (Inr (), \<lparr>errno = 7,
                 trace = [Acquire_runtime_system, Apply_Fn Unit_arg, Apply_Done 900,
                          Release_runtime_system]\<rparr>) \<and>
   callback_handler registry_done cif_zero 900 [] (closure_locked 3) world0
     = (Inl Assert_failure, \<lparr>errno = 7, trace = [Acquire_runtime_system]\<rparr>)"
  by code_simp

text \<open>
  C7, amended. For a resolved chain that accepts them, the bridge of a trampoline with
  \<open>n \<ge> 1\<close> native arguments (fewer than \<open>2 ^ 31\<close>) applies exactly \<open>n\<close> steps, one
  per native argument address in argument order, and then the result step once on the
  return-slot address; for \<open>n = 0\<close> it applies exactly one step, to the unit value,
  and then the result step once on the return-slot address. Nothing else is applied.
\<close>

theorem bridge_applications:
  assumes res: "retrieve_v (fnkey cl) = Some boxed"
    and len: "length cargs < 2 ^ 31"
    and n: "nargs cif_v = of_nat (length cargs)"
    and acc: "accepts boxed (if cargs = [] then [Unit_arg] else map Ptr_arg cargs)"
  shows "fst (callback_handler retrieve_v cif_v ret cargs cl w) = Inr () \<and>
         trace (snd (callback_handler retrieve_v cif_v ret cargs cl w)) =
           trace w
           @ (if runtime_lock (closure_ctx cl) then [Acquire_runtime_system] else [])
           @ map Apply_Fn (if cargs = [] then [Unit_arg] else map Ptr_arg cargs)
           @ [Apply_Done ret]
           @ (if runtime_lock (closure_ctx cl) then [Release_runtime_system] else [])"
proof (cases "cargs = []")
  case True
  from acc True obtain f where f: "boxed = Fn f" and d: "f Unit_arg = Done"
    by (cases boxed; cases "case boxed of Fn g \<Rightarrow> g Unit_arg | Done \<Rightarrow> Done") auto
  show ?thesis
    using res n True f d
    by (simp add: callback_handler_def retrieve_closure_def Let_def trace_emit
        caml_acquire_runtime_system_def caml_release_runtime_system_def)
next
  case False
  have ar: "sint (nargs cif_v) = int (length cargs)" using n len by (simp add: sint_of_nat_small)
  have nz: "sint (nargs cif_v) \<noteq> 0" using ar False by simp
  have a: "accepts boxed (map Ptr_arg (drop 0 cargs))" using acc False by simp
  have L: "\<And>v. fst (apply_loop cargs 0 (length cargs) boxed v) = Inr Done"
    "\<And>v. trace (snd (apply_loop cargs 0 (length cargs) boxed v))
       = trace v @ map (\<lambda>a. Apply_Fn (Ptr_arg a)) cargs"
    using apply_loop_accepts [of 0 "length cargs" cargs boxed] a by simp_all
  show ?thesis
    using res nz False
    by (simp add: callback_handler_def retrieve_closure_def Let_def trace_emit ar L
        caml_acquire_runtime_system_def caml_release_runtime_system_def comp_def)
qed

theorem bridge_applications_witness:
  "registry_two (fnkey (closure_locked 3)) = Some (Fn (\<lambda>a. Fn (\<lambda>b. Done))) \<and>
   nargs cif_two = of_nat (length [100, 200 :: addr]) \<and>
   fst (callback_handler registry_two cif_two 900 [100, 200] (closure_locked 3) world0)
     = Inr () \<and>
   trace (snd (callback_handler registry_two cif_two 900 [100, 200] (closure_locked 3) world0))
     = [Acquire_runtime_system, Apply_Fn (Ptr_arg 100), Apply_Fn (Ptr_arg 200),
        Apply_Done 900, Release_runtime_system]"
proof -
  have h1: "registry_two (fnkey (closure_locked 3)) = Some (Fn (\<lambda>a. Fn (\<lambda>b. Done)))"
    by (simp add: registry_two_def closure_locked_def)
  have h2: "length [100, 200 :: addr] < 2 ^ 31" by simp
  have h3: "nargs cif_two = of_nat (length [100, 200 :: addr])" by (simp add: cif_two_def)
  have h4: "accepts (Fn (\<lambda>a. Fn (\<lambda>b. Done)))
              (if [100, 200 :: addr] = [] then [Unit_arg] else map Ptr_arg [100, 200])"
    by simp
  have e: "runtime_lock (closure_ctx (closure_locked 3))" "trace world0 = []"
    by (simp_all add: closure_locked_def world0_def)
  from bridge_applications [where retrieve_v = registry_two and cl = "closure_locked 3"
      and cif_v = cif_two and cargs = "[100, 200]" and ret = 900 and w = world0,
      OF h1 h2 h3 h4]
  show ?thesis using h1 h3 by (simp add: e)
qed

text \<open>
  C9. When the resolver fails for the key of the closure, the bridge raises the
  expired-closure exception; apart from the acquisition of the lock it does nothing, in
  particular it applies no step and no result step.
\<close>

theorem expired_closure:
  assumes "retrieve_v (fnkey cl) = None"
  shows "fst (callback_handler retrieve_v cif_v ret cargs cl w) = Inl CallToExpiredClosure \<and>
         trace (snd (callback_handler retrieve_v cif_v ret cargs cl w)) =
           trace w @ (if runtime_lock (closure_ctx cl) then [Acquire_runtime_system] else []) \<and>
         applications (trace (snd (callback_handler retrieve_v cif_v ret cargs cl w)))
           = applications (trace w)"
  using assms
  by (simp add: callback_handler_def retrieve_closure_def Let_def applications_def
      caml_acquire_runtime_system_def trace_emit)

theorem expired_closure_witness:
  "registry_two (fnkey (closure_locked 4)) = None \<and>
   callback_handler registry_two cif_two 900 [100, 200] (closure_locked 4) world0
     = (Inl CallToExpiredClosure, \<lparr>errno = 7, trace = [Acquire_runtime_system]\<rparr>) \<and>
   applications
     (trace (snd (callback_handler registry_two cif_two 900 [100, 200] (closure_locked 4)
                    world0))) = []"
proof -
  have h1: "registry_two (fnkey (closure_locked 4)) = None"
    by (simp add: registry_two_def closure_locked_def)
  have e: "callback_handler registry_two cif_two 900 [100, 200] (closure_locked 4) world0
     = (Inl CallToExpiredClosure, \<lparr>errno = 7, trace = [Acquire_runtime_system]\<rparr>)"
    by code_simp
  have a: "applications (trace world0) = []" by code_simp
  from expired_closure [where retrieve_v = registry_two and cl = "closure_locked 4"
      and cif_v = cif_two and cargs = "[100, 200]" and ret = 900 and w = world0, OF h1]
  show ?thesis using h1 e a by simp
qed

end
